theory Spec2Isabelle
  imports Main "HOL-Library.Sublist"
begin

section \<open>Data model of ResumeStudio.py\<close>

text \<open>
  The structured output model \<^verbatim>\<open>Qualifications\<close> (a pydantic class with two lists of
  strings) is a record.
\<close>

record Qualifications =
  required :: "string list"
  preferred :: "string list"

text \<open>
  \<^verbatim>\<open>JobQualsState\<close> and \<^verbatim>\<open>ResumeState\<close> are \<^verbatim>\<open>TypedDict\<close>s: at run time they are
  plain dictionaries, and the code reads several keys with \<^verbatim>\<open>state.get(key, default)\<close>,
  so any key may be absent. A state is therefore a record of optional fields, where
  \<open>None\<close> is "the key is not in the dictionary". The partial update a node returns is a
  dictionary of the same shape. \<^verbatim>\<open>JobQualsState\<close> has the first, second and fourth key
  only; the main graph hands its own \<^verbatim>\<open>ResumeState\<close> dictionary to functions annotated
  with either type, so one record serves both.
\<close>

record state =
  job_post :: "string option"
  human_feedback :: "string option"
  resume_input :: "string option"
  qualifications :: "Qualifications option"
  resume_draft :: "string option"
  editor_feedback :: "string list option"
  iteration :: "int option"

definition empty_dict :: state where
  "empty_dict = \<lparr>job_post = None, human_feedback = None, resume_input = None,
     qualifications = None, resume_draft = None, editor_feedback = None, iteration = None\<rparr>"

text \<open>\<^verbatim>\<open>d.get(key, default)\<close> on an optional field.\<close>

definition dict_get :: "'a option \<Rightarrow> 'a \<Rightarrow> 'a" where
  "dict_get v d = (case v of None \<Rightarrow> d | Some x \<Rightarrow> x)"

text \<open>
  Exceptions a node body can raise: \<^verbatim>\<open>state[key]\<close> on an absent key raises
  \<^verbatim>\<open>KeyError\<close>, and a call of the language model may raise (network, schema validation).
\<close>

datatype py_error = KeyError string | LLMException string

datatype message = SystemMessage string | HumanMessage string | AIMessage string

text \<open>
  The language model is an external service. It is a parameter of the model: it answers a
  request (a list of messages) given the requests issued before it, so that nothing is
  assumed about two calls returning the same text. Every node returns, next to its result,
  the log of requests extended by the ones it issued. Python's \<^verbatim>\<open>str\<close> of a list of
  strings, used when an f-string interpolates \<^verbatim>\<open>qualifications.required\<close>, is a built-in
  taken as a parameter too.
\<close>

type_synonym llm_log = "message list list"

record env =
  llm_invoke :: "llm_log \<Rightarrow> message list \<Rightarrow> py_error + string"
  structured_invoke :: "llm_log \<Rightarrow> message list \<Rightarrow> py_error + Qualifications"
  py_str :: "string list \<Rightarrow> string"

type_synonym node_result = "llm_log \<times> (py_error + state)"

subsection \<open>Strings\<close>

definition nl :: string where
  "nl = [CHR 0x0A]"

text \<open>\<^verbatim>\<open>sep.join(xs)\<close>.\<close>

fun join :: "string \<Rightarrow> string list \<Rightarrow> string" where
  "join sep [] = []"
| "join sep [x] = x"
| "join sep (x # y # ys) = x @ sep @ join sep (y # ys)"

text \<open>
  The template \<^verbatim>\<open>qualification_instructions\<close> after
  \<^verbatim>\<open>.format(job_post=..., human_feedback=...)\<close>: the lines of the literal, with the two
  placeholders replaced.
\<close>

definition qualification_instructions :: "string \<Rightarrow> string \<Rightarrow> string" where
  "qualification_instructions jp hf = join nl
    [''You are tasked with analyzing a job posting and coming up with a outline for writing tailored resume.'',
     '''',
     ''1. Carefully read the following job post:'',
     jp,
     '''',
     ''2. Extract qualifications into two categories, focus on keywords of technology required, such as Power BI and AWS :'',
     ''   - Required (must-have skills/credentials/experience)'',
     ''   - Preferred (nice-to-have or optional)'',
     '''',
     ''3. Update qualification with similar item based on human feedback of the user:'',
     hf,
     '''',
     ''3. Return the structured lists.'',
     '''']"

section \<open>Nodes\<close>

subsection \<open>Node: extract qualifications\<close>

definition extract_qualifications :: "env \<Rightarrow> llm_log \<Rightarrow> state \<Rightarrow> node_result" where
  "extract_qualifications e log s =
    (case job_post s of
       None \<Rightarrow> (log, Inl (KeyError ''job_post''))
     | Some jp \<Rightarrow>
        (let hf = dict_get (human_feedback s) '''';
             system_message = qualification_instructions jp hf;
             request = [SystemMessage system_message,
                        HumanMessage ''Extract the qualifications now.'']
         in (log @ [request],
             case structured_invoke e log request of
               Inl err \<Rightarrow> Inl err
             | Inr q \<Rightarrow> Inr (empty_dict\<lparr>qualifications := Some q\<rparr>))))"

subsection \<open>Node: human feedback\<close>

text \<open>The body is \<^verbatim>\<open>pass\<close>: the node returns \<^verbatim>\<open>None\<close>, that is, no update.\<close>

definition human_feedback_node :: "env \<Rightarrow> llm_log \<Rightarrow> state \<Rightarrow> node_result" where
  "human_feedback_node e log s = (log, Inr empty_dict)"

subsection \<open>Step 2: draft resume\<close>

definition draft_prompt ::
  "string \<Rightarrow> string \<Rightarrow> string \<Rightarrow> string \<Rightarrow> string \<Rightarrow> string \<Rightarrow> string" where
  "draft_prompt jp req pref ri prev fb = join nl
    [''You are a career coach.'',
     ''    Tailor the candidate'' @ [CHR 0x27] @ ''s resume to this job post:'',
     '''',
     ''    Job Post:'',
     ''    '' @ jp,
     '''',
     ''    Required Qualifications:'',
     ''    '' @ req,
     '''',
     ''    Preferred Qualifications:'',
     ''    '' @ pref,
     '''',
     ''    Existing Resume:'',
     ''    '' @ ri,
     '''',
     ''    Previous Draft (if any):'',
     ''    '' @ prev,
     '''',
     ''    Feedback from reviewers:'',
     ''    '' @ fb,
     '''',
     ''    Draft a revised resume highlighting relevant achievements, quantifying impact where possible.'',
     ''    '']"

definition draft_resume :: "env \<Rightarrow> llm_log \<Rightarrow> state \<Rightarrow> node_result" where
  "draft_resume e log s =
    (case job_post s of
       None \<Rightarrow> (log, Inl (KeyError ''job_post''))
     | Some jp \<Rightarrow>
    (case qualifications s of
       None \<Rightarrow> (log, Inl (KeyError ''qualifications''))
     | Some q \<Rightarrow>
    (case resume_input s of
       None \<Rightarrow> (log, Inl (KeyError ''resume_input''))
     | Some ri \<Rightarrow>
        (let feedback = join nl (dict_get (editor_feedback s) []);
             system_message = draft_prompt jp (py_str e (required q)) (py_str e (preferred q))
                                ri (dict_get (resume_draft s) '''') feedback;
             request = [SystemMessage system_message]
         in (log @ [request],
             case llm_invoke e log request of
               Inl err \<Rightarrow> Inl err
             | Inr draft \<Rightarrow>
                 Inr (empty_dict\<lparr>resume_draft := Some draft, editor_feedback := Some []\<rparr>))))))"

subsection \<open>Step 3a: editor 1 (API stub)\<close>

definition editor_api :: "env \<Rightarrow> llm_log \<Rightarrow> state \<Rightarrow> node_result" where
  "editor_api e log s =
    (log, Inr (empty_dict\<lparr>editor_feedback := Some [''[API editor returned no feedback]'']\<rparr>))"

subsection \<open>Step 3b: editor 2 (LLM critique)\<close>

definition critique_prompt :: string where
  "critique_prompt = join nl
    [''You are a strict resume reviewer.'',
     ''    Critique the resume draft for:'',
     ''    - Grammar issues'',
     ''    - Lack of quantified metrics'',
     ''    - Weak descriptions of achievements'',
     ''    Provide actionable suggestions.'',
     ''    '']"

definition editor_critique :: "env \<Rightarrow> llm_log \<Rightarrow> state \<Rightarrow> node_result" where
  "editor_critique e log s =
    (case resume_draft s of
       None \<Rightarrow> (log, Inl (KeyError ''resume_draft''))
     | Some draft \<Rightarrow>
        (let request = [SystemMessage critique_prompt, HumanMessage draft]
         in (log @ [request],
             case llm_invoke e log request of
               Inl err \<Rightarrow> Inl err
             | Inr feedback \<Rightarrow> Inr (empty_dict\<lparr>editor_feedback := Some [feedback]\<rparr>))))"

subsection \<open>Control: continue or end\<close>

definition should_human_feedback_continue :: "state \<Rightarrow> string" where
  "should_human_feedback_continue s =
    (if human_feedback s = None \<or> human_feedback s = Some ''ok''
     then ''draft_resume''
     else ''extract_qualifications'')"

subsection \<open>Step 3c: router to parallel editors\<close>

text \<open>\<^verbatim>\<open>Send(node, arg)\<close>: run \<^verbatim>\<open>node\<close> with \<^verbatim>\<open>arg\<close> as its input.\<close>

datatype send = Send string state

definition send_to_editors :: "state \<Rightarrow> py_error + send list" where
  "send_to_editors s =
    (case resume_draft s of
       None \<Rightarrow> Inl (KeyError ''resume_draft'')
     | Some draft \<Rightarrow>
         Inr [Send ''editor_api'' (empty_dict\<lparr>resume_draft := Some draft\<rparr>),
              Send ''editor_critique'' (empty_dict\<lparr>resume_draft := Some draft\<rparr>)])"

subsection \<open>Step 4: revise resume\<close>

definition revise_resume :: "env \<Rightarrow> llm_log \<Rightarrow> state \<Rightarrow> node_result" where
  "revise_resume e log s =
    (log, Inr (empty_dict\<lparr>iteration := Some (dict_get (iteration s) 0 + 1)\<rparr>))"

subsection \<open>Step 5: route on the iteration count\<close>

definition should_continue :: "state \<Rightarrow> string" where
  "should_continue s =
    (if dict_get (iteration s) 0 \<ge> 2 then ''write_final_draft'' else ''draft_resume'')"

subsection \<open>Step 6: final draft\<close>

definition final_prompt :: "string \<Rightarrow> string \<Rightarrow> string" where
  "final_prompt draft fb = join nl
    [''You are a professional career coach.'',
     ''    Produce a final, polished resume based on the following:'',
     '''',
     ''    Last Draft:'',
     ''    '' @ draft,
     '''',
     ''    Feedback from editors (if any):'',
     ''    '' @ fb,
     '''',
     ''    Ensure:'',
     ''    - Clear grammar and style'',
     ''    - Achievements quantified'',
     ''    - Strong focus on required and preferred qualifications'',
     ''    '']"

definition write_final_draft :: "env \<Rightarrow> llm_log \<Rightarrow> state \<Rightarrow> node_result" where
  "write_final_draft e log s =
    (let draft = dict_get (resume_draft s) '''';
         feedback = join nl (dict_get (editor_feedback s) []);
         request = [SystemMessage (final_prompt draft feedback)]
     in (log @ [request],
         case llm_invoke e log request of
           Inl err \<Rightarrow> Inl err
         | Inr final_resume \<Rightarrow> Inr (empty_dict\<lparr>resume_draft := Some final_resume\<rparr>)))"

section \<open>The graph\<close>

text \<open>
  The functions \<^verbatim>\<open>StateGraph\<close>, \<^verbatim>\<open>add_node\<close>, \<^verbatim>\<open>add_edge\<close>,
  \<^verbatim>\<open>add_conditional_edges\<close> and \<^verbatim>\<open>compile\<close> build a graph description: named nodes,
  static edges, conditional edges (a source node, a routing function and the declared
  successor names) and the nodes to interrupt before. A routing function returns one node
  name or a list of \<^verbatim>\<open>Send\<close> packets.
\<close>

datatype path_result = Goto string | Fanout "send list"

type_synonym node_fn = "env \<Rightarrow> llm_log \<Rightarrow> state \<Rightarrow> node_result"
type_synonym path_fn = "state \<Rightarrow> py_error + path_result"

record graph_definition =
  nodes :: "(string \<times> node_fn) list"
  edges :: "(string \<times> string) list"
  branches :: "(string \<times> path_fn \<times> string list) list"
  interrupt_before :: "string list"

definition START :: string where
  "START = ''__start__''"

definition END :: string where
  "END = ''__end__''"

subsection \<open>Merging an update into the state\<close>

text \<open>
  Modelled from the spec: the merge of a node's partial update into the state is done by
  the graph engine (the library \<^verbatim>\<open>langgraph\<close>), which is not part of the sources. The
  spec, section 3: "each node returns a partial update that is merged (accumulator fields
  append, scalar fields overwrite)". Which fields accumulate is in the source:
  \<^verbatim>\<open>editor_feedback: Annotated[List[str], operator.add]\<close> is the only annotated field,
  and \<^verbatim>\<open>operator.add(old, new)\<close> on lists is \<^verbatim>\<open>old + new\<close>. A key absent from the update
  leaves the field as it is.
\<close>

definition overwrite :: "'a option \<Rightarrow> 'a option \<Rightarrow> 'a option" where
  "overwrite old new = (case new of None \<Rightarrow> old | Some v \<Rightarrow> Some v)"

definition operator_add :: "string list option \<Rightarrow> string list option \<Rightarrow> string list option" where
  "operator_add old new = (case new of None \<Rightarrow> old | Some xs \<Rightarrow> Some (dict_get old [] @ xs))"

definition merge_update :: "state \<Rightarrow> state \<Rightarrow> state" where
  "merge_update s u =
    \<lparr>job_post = overwrite (job_post s) (job_post u),
     human_feedback = overwrite (human_feedback s) (human_feedback u),
     resume_input = overwrite (resume_input s) (resume_input u),
     qualifications = overwrite (qualifications s) (qualifications u),
     resume_draft = overwrite (resume_draft s) (resume_draft u),
     editor_feedback = operator_add (editor_feedback s) (editor_feedback u),
     iteration = overwrite (iteration s) (iteration u)\<rparr>"

subsection \<open>The extraction sub-workflow as one node\<close>

text \<open>
  \<^verbatim>\<open>qua_builder\<close> declares one node between \<^verbatim>\<open>START\<close> and \<^verbatim>\<open>END\<close> over
  \<^verbatim>\<open>JobQualsState\<close>, and the main graph adds \<^verbatim>\<open>qua_builder.compile()\<close> as its node
  \<^verbatim>\<open>extract_qualifications\<close>.

  Modelled from the spec: how the engine runs a compiled graph as a node is not in the
  sources. The spec, section 2: "Main Workflow invokes the Extraction sub-workflow as one
  compiled step". The sub-workflow sees the keys of its own state type, runs its single
  node, merges the update, and its final state is the update handed to the main graph.
\<close>

definition job_quals_state :: "state \<Rightarrow> state" where
  "job_quals_state s = empty_dict\<lparr>job_post := job_post s, human_feedback := human_feedback s,
     qualifications := qualifications s\<rparr>"

definition qua_graph :: "env \<Rightarrow> llm_log \<Rightarrow> state \<Rightarrow> node_result" where
  "qua_graph e log s =
    (let sub = job_quals_state s
     in case extract_qualifications e log sub of
          (log', Inl err) \<Rightarrow> (log', Inl err)
        | (log', Inr u) \<Rightarrow> (log', Inr (merge_update sub u)))"

subsection \<open>The main graph\<close>

definition graph :: graph_definition where
  "graph =
    \<lparr>nodes =
       [(''extract_qualifications'', qua_graph),
        (''human_feedback'', human_feedback_node),
        (''draft_resume'', draft_resume),
        (''editor_api'', editor_api),
        (''editor_critique'', editor_critique),
        (''revise_resume'', revise_resume),
        (''write_final_draft'', write_final_draft)],
     edges =
       [(START, ''extract_qualifications''),
        (''extract_qualifications'', ''human_feedback''),
        (''draft_resume'', ''editor_api''),
        (''draft_resume'', ''editor_critique''),
        (''editor_api'', ''revise_resume''),
        (''editor_critique'', ''revise_resume''),
        (''write_final_draft'', END)],
     branches =
       [(''human_feedback'', (\<lambda>s. Inr (Goto (should_human_feedback_continue s))),
           [''extract_qualifications'', ''draft_resume'']),
        (''revise_resume'', (\<lambda>s. Inr (Goto (should_continue s))),
           [''draft_resume'', ''write_final_draft''])],
     interrupt_before = [''human_feedback'']\<rparr>"

section \<open>The graph engine\<close>

text \<open>
  Modelled from the spec: the engine that executes a compiled graph (\<^verbatim>\<open>invoke\<close>, the
  suspension at an interruption point, \<^verbatim>\<open>resume\<close>) is the library \<^verbatim>\<open>langgraph\<close>, not
  part of the sources. The spec, section 4.1: "for a static edge, runs the successor next;
  for a conditional edge, calls the routing function with current state and dispatches to
  its returned successor name (must be a member of the declared set, else RoutingError);
  for a fan-out edge, invokes each returned successor concurrently with an isolated state
  payload, merges each branch's returned updates into global state using the field's merge
  policy, and only proceeds past the join point once all branches complete", "invoke
  suspends (returns a paused handle) immediately before executing any node declared as an
  interruption point, after persisting a checkpoint; resume(handle, patch) merges patch
  into the checkpointed state and continues execution from the interrupted node", "Terminal
  marker ends execution and returns current state as final", and a failing node "surfaces
  as NodeExecutionError carrying the node name and state at time of failure".

  The engine works in rounds. A round runs every pending task on the same state, merges
  the updates in task order, and collects the successors of the nodes it ran; a node with
  several incoming edges is scheduled once. The configuration carries the state and the
  pending tasks (together: the checkpoint), and two observations for the proofs: the
  requests sent to the language model so far, and the trace of rounds (the nodes run and
  the state after the merge).
\<close>

datatype engine_error =
    NodeExecutionError string py_error
  | RoutingError string string
  | GraphDefinitionError string

datatype task = Task string "state option"

fun task_node :: "task \<Rightarrow> string" where
  "task_node (Task n inp) = n"

record config =
  channel_values :: state
  pending :: "task list"
  calls :: llm_log
  trace :: "(string list \<times> state) list"

fun run_tasks ::
  "graph_definition \<Rightarrow> env \<Rightarrow> state \<Rightarrow> llm_log \<Rightarrow> task list \<Rightarrow> engine_error + (llm_log \<times> state list)" where
  "run_tasks g e s log [] = Inr (log, [])"
| "run_tasks g e s log (Task n inp # ts) =
    (case map_of (nodes g) n of
       None \<Rightarrow> Inl (GraphDefinitionError n)
     | Some f \<Rightarrow>
        (case f e log (case inp of None \<Rightarrow> s | Some payload \<Rightarrow> payload) of
           (log', Inl err) \<Rightarrow> Inl (NodeExecutionError n err)
         | (log', Inr u) \<Rightarrow>
            (case run_tasks g e s log' ts of
               Inl err \<Rightarrow> Inl err
             | Inr (log'', us) \<Rightarrow> Inr (log'', u # us))))"

fun send_node :: "send \<Rightarrow> string" where
  "send_node (Send n payload) = n"

fun send_task :: "send \<Rightarrow> task" where
  "send_task (Send n payload) = Task n (Some payload)"

fun route :: "string \<Rightarrow> state \<Rightarrow> path_fn \<times> string list \<Rightarrow> engine_error + task list" where
  "route n s (f, declared) =
    (case f s of
       Inl err \<Rightarrow> Inl (NodeExecutionError n err)
     | Inr (Goto m) \<Rightarrow>
         if m \<in> set declared then Inr [Task m None] else Inl (RoutingError n m)
     | Inr (Fanout ps) \<Rightarrow>
        (case find (\<lambda>p. send_node p \<notin> set declared) ps of
           Some p \<Rightarrow> Inl (RoutingError n (send_node p))
         | None \<Rightarrow> Inr (map send_task ps)))"

fun routes :: "string \<Rightarrow> state \<Rightarrow> (path_fn \<times> string list) list \<Rightarrow> engine_error + task list" where
  "routes n s [] = Inr []"
| "routes n s (b # bs) =
    (case route n s b of
       Inl err \<Rightarrow> Inl err
     | Inr ts \<Rightarrow> (case routes n s bs of Inl err \<Rightarrow> Inl err | Inr ts' \<Rightarrow> Inr (ts @ ts')))"

definition static_targets :: "graph_definition \<Rightarrow> string \<Rightarrow> string list" where
  "static_targets g n = map snd (filter (\<lambda>ed. fst ed = n) (edges g))"

definition branches_of :: "graph_definition \<Rightarrow> string \<Rightarrow> (path_fn \<times> string list) list" where
  "branches_of g n = map snd (filter (\<lambda>b. fst b = n) (branches g))"

definition successors :: "graph_definition \<Rightarrow> state \<Rightarrow> string \<Rightarrow> engine_error + task list" where
  "successors g s n =
    (case routes n s (branches_of g n) of
       Inl err \<Rightarrow> Inl err
     | Inr ts \<Rightarrow> Inr (map (\<lambda>m. Task m None) (static_targets g n) @ ts))"

fun all_successors :: "graph_definition \<Rightarrow> state \<Rightarrow> string list \<Rightarrow> engine_error + task list" where
  "all_successors g s [] = Inr []"
| "all_successors g s (n # ns) =
    (case successors g s n of
       Inl err \<Rightarrow> Inl err
     | Inr ts \<Rightarrow> (case all_successors g s ns of Inl err \<Rightarrow> Inl err | Inr ts' \<Rightarrow> Inr (ts @ ts')))"

fun plain_names :: "task list \<Rightarrow> string list" where
  "plain_names [] = []"
| "plain_names (Task m None # ts) = m # plain_names ts"
| "plain_names (Task m (Some payload) # ts) = plain_names ts"

fun payload_tasks :: "task list \<Rightarrow> task list" where
  "payload_tasks [] = []"
| "payload_tasks (Task m None # ts) = payload_tasks ts"
| "payload_tasks (Task m (Some payload) # ts) = Task m (Some payload) # payload_tasks ts"

text \<open>
  The tasks of the next round: every node named by an edge once, the terminal marker
  dropped, and one task for each packet of a fan-out.
\<close>

definition next_tasks :: "task list \<Rightarrow> task list" where
  "next_tasks ts =
    map (\<lambda>m. Task m None) (remdups (filter (\<lambda>m. m \<noteq> END) (plain_names ts)))
    @ filter (\<lambda>t. task_node t \<noteq> END) (payload_tasks ts)"

definition superstep :: "graph_definition \<Rightarrow> env \<Rightarrow> config \<Rightarrow> engine_error + config" where
  "superstep g e c =
    (case run_tasks g e (channel_values c) (calls c) (pending c) of
       Inl err \<Rightarrow> Inl err
     | Inr (log', us) \<Rightarrow>
        (let s' = foldl merge_update (channel_values c) us;
             ran = map task_node (pending c)
         in case all_successors g s' ran of
              Inl err \<Rightarrow> Inl err
            | Inr ts \<Rightarrow>
                Inr \<lparr>channel_values = s', pending = next_tasks ts, calls = log',
                     trace = trace c @ [(ran, s')]\<rparr>))"

datatype outcome = Done | Paused | Failed engine_error | OutOfFuel

definition interrupted :: "graph_definition \<Rightarrow> config \<Rightarrow> bool" where
  "interrupted g c = list_ex (\<lambda>t. task_node t \<in> set (interrupt_before g)) (pending c)"

text \<open>
  \<open>run fuel g e resuming c\<close> executes rounds from the configuration \<open>c\<close>. With
  \<open>Done\<close> the returned configuration holds the final state; with \<open>Paused\<close> it is the
  checkpoint, its pending task the interrupted node; with \<open>Failed\<close> it holds the state at
  the time of the failure. \<open>resuming\<close> is set for the first
  round after a resume, which runs the interrupted node. The fuel bounds the number of
  rounds; \<open>OutOfFuel\<close> is "not returned yet".
\<close>

fun run :: "nat \<Rightarrow> graph_definition \<Rightarrow> env \<Rightarrow> bool \<Rightarrow> config \<Rightarrow> outcome \<times> config" where
  "run 0 g e resuming c =
    (if pending c = [] then (Done, c)
     else if \<not> resuming \<and> interrupted g c then (Paused, c)
     else (OutOfFuel, c))"
| "run (Suc fuel) g e resuming c =
    (if pending c = [] then (Done, c)
     else if \<not> resuming \<and> interrupted g c then (Paused, c)
     else case superstep g e c of
            Inl err \<Rightarrow> (Failed err, c)
          | Inr c' \<Rightarrow> run fuel g e False c')"

definition invoke :: "nat \<Rightarrow> graph_definition \<Rightarrow> env \<Rightarrow> state \<Rightarrow> outcome \<times> config" where
  "invoke fuel g e initial_state =
    run fuel g e False
      \<lparr>channel_values = initial_state,
       pending = next_tasks (map (\<lambda>m. Task m None) (static_targets g START)),
       calls = [], trace = []\<rparr>"

definition resume :: "nat \<Rightarrow> graph_definition \<Rightarrow> env \<Rightarrow> config \<Rightarrow> state \<Rightarrow> outcome \<times> config" where
  "resume fuel g e handle patch =
    run fuel g e True (handle\<lparr>channel_values := merge_update (channel_values handle) patch\<rparr>)"

section \<open>Observations used by the properties\<close>

text \<open>The request \<^verbatim>\<open>extract_qualifications\<close> sends for a state.\<close>

definition extraction_request :: "state \<Rightarrow> message list" where
  "extraction_request s =
     [SystemMessage (qualification_instructions (dict_get (job_post s) []) (dict_get (human_feedback s) [])),
      HumanMessage ''Extract the qualifications now.'']"

text \<open>The nodes a configuration has run, in order.\<close>

definition nodes_run :: "config \<Rightarrow> string list" where
  "nodes_run c = concat (map fst (trace c))"

text \<open>The trace reduced to the nodes of each round and the iteration counter after it.\<close>

definition iter_trace :: "config \<Rightarrow> (string list \<times> int) list" where
  "iter_trace c = map (\<lambda>(ns, s). (ns, dict_get (iteration s) 0)) (trace c)"

text \<open>
  A whole run as the caller drives it (spec, section 6): one invocation, then one resume for
  each patch while the workflow is paused.
\<close>

fun resume_all :: "nat \<Rightarrow> graph_definition \<Rightarrow> env \<Rightarrow> config \<Rightarrow> state list \<Rightarrow> outcome \<times> config" where
  "resume_all fuel g e c [] = (Paused, c)"
| "resume_all fuel g e c (p # ps) =
    (case resume fuel g e c p of
       (Paused, c') \<Rightarrow> resume_all fuel g e c' ps
     | (out, c') \<Rightarrow> (out, c'))"

definition workflow :: "nat \<Rightarrow> env \<Rightarrow> state \<Rightarrow> state list \<Rightarrow> outcome \<times> config" where
  "workflow fuel e initial_state patches =
    (case invoke fuel graph e initial_state of
       (Paused, c) \<Rightarrow> resume_all fuel graph e c patches
     | (out, c) \<Rightarrow> (out, c))"

text \<open>Reading an absent \<^verbatim>\<open>iteration\<close> as 0, in a state and in a configuration.\<close>

definition absent_as_zero :: "state \<Rightarrow> state" where
  "absent_as_zero s = s\<lparr>iteration := Some (dict_get (iteration s) 0)\<rparr>"

definition absent_as_zero_config :: "config \<Rightarrow> config" where
  "absent_as_zero_config c =
     c\<lparr>channel_values := absent_as_zero (channel_values c),
       trace := map (\<lambda>(ns, s). (ns, absent_as_zero s)) (trace c)\<rparr>"

subsection \<open>A concrete environment and input\<close>

text \<open>A language model that always answers, and a caller's input with the two mandatory texts.\<close>

definition stub_env :: env where
  "stub_env =
     \<lparr>llm_invoke = (\<lambda>log request. Inr ''text''),
      structured_invoke = (\<lambda>log request. Inr \<lparr>required = [''AWS''], preferred = [''Power BI'']\<rparr>),
      py_str = (\<lambda>xs. join '', '' xs)\<rparr>"

definition example_input :: state where
  "example_input = empty_dict\<lparr>job_post := Some ''Data engineer'', resume_input := Some ''CV''\<rparr>"

definition ok_patch :: state where
  "ok_patch = empty_dict\<lparr>human_feedback := Some ''ok''\<rparr>"

text \<open>The trace reduced to the nodes of each round and the number of feedback entries after it.\<close>

definition feedback_trace :: "config \<Rightarrow> (string list \<times> nat option) list" where
  "feedback_trace c = map (\<lambda>(ns, s). (ns, map_option length (editor_feedback s))) (trace c)"

text \<open>The checkpoint of the example invocation.\<close>

definition example_checkpoint :: config where
  "example_checkpoint =
     \<lparr>channel_values =
        example_input\<lparr>qualifications := Some \<lparr>required = [''AWS''], preferred = [''Power BI'']\<rparr>\<rparr>,
      pending = [Task ''human_feedback'' None],
      calls = [extraction_request example_input],
      trace = [([''extract_qualifications''],
        example_input\<lparr>qualifications := Some \<lparr>required = [''AWS''], preferred = [''Power BI'']\<rparr>\<rparr>)]\<rparr>"

text \<open>A patch that asks for another extraction.\<close>

definition need_aws_patch :: state where
  "need_aws_patch = empty_dict\<lparr>human_feedback := Some ''need AWS keyword''\<rparr>"

text \<open>What two revision rounds and the final draft leave in the reduced trace.\<close>

definition two_rounds :: "(string list \<times> int) list" where
  "two_rounds =
     [([''draft_resume''], 0), ([''editor_api'', ''editor_critique''], 0), ([''revise_resume''], 1),
      ([''draft_resume''], 1), ([''editor_api'', ''editor_critique''], 1), ([''revise_resume''], 2),
      ([''write_final_draft''], 2)]"

section \<open>Basic facts about the model\<close>

lemma merge_update_empty: "merge_update s empty_dict = s"
  by (simp add: merge_update_def empty_dict_def overwrite_def operator_add_def)

lemma sublist_join: "x \<in> set xs \<Longrightarrow> sublist x (join sep xs)"
proof (induction sep xs rule: join.induct)
  case (1 sep)
  then show ?case by simp
next
  case (2 sep y)
  then show ?case by simp
next
  case (3 sep a b bs)
  show ?case
  proof (cases "x = a")
    case True
    then show ?thesis by simp
  next
    case False
    with 3 have "sublist x (join sep (b # bs))" by simp
    then obtain ps ss where "join sep (b # bs) = ps @ x @ ss" by (auto simp: sublist_def)
    then have "join sep (a # b # bs) = (a @ sep @ ps) @ x @ ss" by simp
    then show ?thesis unfolding sublist_def by blast
  qed
qed

lemma merge_iteration:
  "merge_update s (empty_dict\<lparr>iteration := Some k\<rparr>) = s\<lparr>iteration := Some k\<rparr>"
  by (rule state.equality)
     (simp_all add: merge_update_def empty_dict_def overwrite_def operator_add_def)

lemma node_lookup:
  "map_of (nodes graph) ''extract_qualifications'' = Some qua_graph"
  "map_of (nodes graph) ''human_feedback'' = Some human_feedback_node"
  "map_of (nodes graph) ''draft_resume'' = Some draft_resume"
  "map_of (nodes graph) ''editor_api'' = Some editor_api"
  "map_of (nodes graph) ''editor_critique'' = Some editor_critique"
  "map_of (nodes graph) ''revise_resume'' = Some revise_resume"
  "map_of (nodes graph) ''write_final_draft'' = Some write_final_draft"
  by (simp_all add: graph_def)

lemma successors_graph:
  "successors graph s ''extract_qualifications'' = Inr [Task ''human_feedback'' None]"
  "successors graph s ''human_feedback'' = Inr [Task (should_human_feedback_continue s) None]"
  "successors graph s ''draft_resume'' = Inr [Task ''editor_api'' None, Task ''editor_critique'' None]"
  "successors graph s ''editor_api'' = Inr [Task ''revise_resume'' None]"
  "successors graph s ''editor_critique'' = Inr [Task ''revise_resume'' None]"
  "successors graph s ''revise_resume'' = Inr [Task (should_continue s) None]"
  "successors graph s ''write_final_draft'' = Inr [Task END None]"
  by (simp_all add: successors_def branches_of_def static_targets_def graph_def START_def END_def
        should_human_feedback_continue_def should_continue_def)


lemma next_tasks_single: "next_tasks [Task m None] = (if m = END then [] else [Task m None])"
  by (simp add: next_tasks_def)

lemma next_tasks_editors:
  "next_tasks [Task ''editor_api'' None, Task ''editor_critique'' None]
     = [Task ''editor_api'' None, Task ''editor_critique'' None]"
  by (simp add: next_tasks_def END_def)

lemma next_tasks_join:
  "next_tasks [Task ''revise_resume'' None, Task ''revise_resume'' None] = [Task ''revise_resume'' None]"
  by (simp add: next_tasks_def END_def)

lemma should_continue_not_END: "should_continue s \<noteq> END"
  by (simp add: should_continue_def END_def)

lemma should_hf_not_END: "should_human_feedback_continue s \<noteq> END"
  by (simp add: should_human_feedback_continue_def END_def)

lemma merge_into_empty_sub:
  "merge_update (job_quals_state s) (empty_dict\<lparr>qualifications := Some q\<rparr>)
     = (job_quals_state s)\<lparr>qualifications := Some q\<rparr>"
  by (rule state.equality)
     (simp_all add: merge_update_def empty_dict_def overwrite_def operator_add_def job_quals_state_def)

lemma qua_graph_eq:
  "qua_graph e log s =
    (case job_post s of
       None \<Rightarrow> (log, Inl (KeyError ''job_post''))
     | Some jp \<Rightarrow>
         (log @ [extraction_request s],
          case structured_invoke e log (extraction_request s) of
            Inl err \<Rightarrow> Inl err
          | Inr q \<Rightarrow> Inr ((job_quals_state s)\<lparr>qualifications := Some q\<rparr>)))"
proof (cases "job_post s")
  case None
  then show ?thesis
    by (simp add: qua_graph_def extract_qualifications_def job_quals_state_def empty_dict_def)
next
  case (Some jp)
  then have jp: "job_post (job_quals_state s) = Some jp"
    and hf: "human_feedback (job_quals_state s) = human_feedback s"
    by (simp_all add: job_quals_state_def empty_dict_def)
  have req: "extraction_request s =
      [SystemMessage (qualification_instructions jp (dict_get (human_feedback s) [])),
       HumanMessage ''Extract the qualifications now.'']"
    using Some by (simp add: extraction_request_def dict_get_def)
  show ?thesis
  proof (cases "structured_invoke e log (extraction_request s)")
    case (Inl err)
    then show ?thesis using Some
      by (simp add: qua_graph_def extract_qualifications_def jp hf req Let_def)
  next
    case (Inr q)
    then show ?thesis using Some
      by (simp add: qua_graph_def extract_qualifications_def jp hf req Let_def merge_into_empty_sub)
  qed
qed

lemma merge_job_quals:
  "merge_update s ((job_quals_state s)\<lparr>qualifications := Some q\<rparr>) = s\<lparr>qualifications := Some q\<rparr>"
  by (rule state.equality)
     (simp_all add: job_quals_state_def merge_update_def empty_dict_def overwrite_def
        operator_add_def split: option.splits)

lemma superstep_extract:
  assumes "pending c = [Task ''extract_qualifications'' None]"
  shows "superstep graph e c =
    (case qua_graph e (calls c) (channel_values c) of
       (log', Inl err) \<Rightarrow> Inl (NodeExecutionError ''extract_qualifications'' err)
     | (log', Inr u) \<Rightarrow>
         Inr \<lparr>channel_values = merge_update (channel_values c) u,
              pending = [Task ''human_feedback'' None], calls = log',
              trace = trace c @ [([''extract_qualifications''], merge_update (channel_values c) u)]\<rparr>)"
  using assms
  by (simp add: superstep_def Let_def node_lookup successors_graph next_tasks_single END_def
      split: prod.splits sum.splits)

lemma superstep_human_feedback:
  assumes "pending c = [Task ''human_feedback'' None]"
  shows "superstep graph e c =
     Inr \<lparr>channel_values = channel_values c,
          pending = [Task (should_human_feedback_continue (channel_values c)) None],
          calls = calls c,
          trace = trace c @ [([''human_feedback''], channel_values c)]\<rparr>"
  using assms
  by (simp add: superstep_def Let_def node_lookup successors_graph next_tasks_single should_hf_not_END
        human_feedback_node_def merge_update_empty)

lemma superstep_draft:
  assumes "pending c = [Task ''draft_resume'' None]"
  shows "superstep graph e c =
    (case draft_resume e (calls c) (channel_values c) of
       (log', Inl err) \<Rightarrow> Inl (NodeExecutionError ''draft_resume'' err)
     | (log', Inr u) \<Rightarrow>
         Inr \<lparr>channel_values = merge_update (channel_values c) u,
              pending = [Task ''editor_api'' None, Task ''editor_critique'' None], calls = log',
              trace = trace c @ [([''draft_resume''], merge_update (channel_values c) u)]\<rparr>)"
  using assms
  by (simp add: superstep_def Let_def node_lookup successors_graph next_tasks_editors
      split: prod.splits sum.splits)

lemma superstep_editors:
  assumes "pending c = [Task ''editor_api'' None, Task ''editor_critique'' None]"
  shows "superstep graph e c =
    (case editor_critique e (calls c) (channel_values c) of
       (log', Inl err) \<Rightarrow> Inl (NodeExecutionError ''editor_critique'' err)
     | (log', Inr u) \<Rightarrow>
         (let s' = merge_update (merge_update (channel_values c)
                     (empty_dict\<lparr>editor_feedback := Some [''[API editor returned no feedback]'']\<rparr>)) u
          in Inr \<lparr>channel_values = s',
                  pending = [Task ''revise_resume'' None], calls = log',
                  trace = trace c @ [([''editor_api'', ''editor_critique''], s')]\<rparr>))"
  using assms
  by (simp add: superstep_def Let_def node_lookup successors_graph next_tasks_join editor_api_def
      split: prod.splits sum.splits)

lemma superstep_revise:
  assumes "pending c = [Task ''revise_resume'' None]"
  shows "superstep graph e c =
    (let s' = (channel_values c)\<lparr>iteration := Some (dict_get (iteration (channel_values c)) 0 + 1)\<rparr>
     in Inr \<lparr>channel_values = s',
             pending = [Task (should_continue s') None], calls = calls c,
             trace = trace c @ [([''revise_resume''], s')]\<rparr>)"
  using assms
  by (simp add: superstep_def Let_def node_lookup successors_graph next_tasks_single should_continue_not_END
        revise_resume_def merge_iteration)

lemma superstep_final:
  assumes "pending c = [Task ''write_final_draft'' None]"
  shows "superstep graph e c =
    (case write_final_draft e (calls c) (channel_values c) of
       (log', Inl err) \<Rightarrow> Inl (NodeExecutionError ''write_final_draft'' err)
     | (log', Inr u) \<Rightarrow>
         Inr \<lparr>channel_values = merge_update (channel_values c) u,
              pending = [], calls = log',
              trace = trace c @ [([''write_final_draft''], merge_update (channel_values c) u)]\<rparr>)"
  using assms
  by (simp add: superstep_def Let_def node_lookup successors_graph next_tasks_single
      split: prod.splits sum.splits)


lemma static_targets_START: "static_targets graph START = [''extract_qualifications'']"
  by (simp add: static_targets_def graph_def START_def)

lemma interrupted_single:
  "pending c = [Task n inp] \<Longrightarrow> interrupted graph c = (n = ''human_feedback'')"
  by (simp add: interrupted_def graph_def)

lemma interrupted_editors:
  "pending c = [Task ''editor_api'' None, Task ''editor_critique'' None] \<Longrightarrow> \<not> interrupted graph c"
  by (simp add: interrupted_def graph_def)

lemma run_paused:
  "pending c \<noteq> [] \<Longrightarrow> interrupted g c \<Longrightarrow> run fuel g e False c = (Paused, c)"
  by (cases fuel) simp_all

lemma run_done: "pending c = [] \<Longrightarrow> run fuel g e r c = (Done, c)"
  by (cases fuel) simp_all

lemma invoke_graph:
  "invoke (Suc fuel) graph e s =
    (case qua_graph e [] s of
       (log', Inl err) \<Rightarrow>
         (Failed (NodeExecutionError ''extract_qualifications'' err),
          \<lparr>channel_values = s, pending = [Task ''extract_qualifications'' None], calls = [],
           trace = []\<rparr>)
     | (log', Inr u) \<Rightarrow>
         (Paused,
          \<lparr>channel_values = merge_update s u, pending = [Task ''human_feedback'' None],
           calls = log', trace = [([''extract_qualifications''], merge_update s u)]\<rparr>))"
proof -
  let ?c = "\<lparr>channel_values = s, pending = [Task ''extract_qualifications'' None], calls = [],
             trace = []\<rparr>"
  have init: "invoke (Suc fuel) graph e s = run (Suc fuel) graph e False ?c"
    by (simp add: invoke_def static_targets_START next_tasks_single END_def)
  have ni: "\<not> interrupted graph ?c"
    by (simp add: interrupted_single)
  show ?thesis
  proof (cases "qua_graph e [] s")
    case (Pair log' res)
    show ?thesis
    proof (cases res)
      case (Inl err)
      with Pair show ?thesis
        by (simp add: init ni superstep_extract)
    next
      case (Inr u)
      let ?c1 = "\<lparr>channel_values = merge_update s u, pending = [Task ''human_feedback'' None],
           calls = log', trace = [([''extract_qualifications''], merge_update s u)]\<rparr>"
      have "run fuel graph e False ?c1 = (Paused, ?c1)"
        by (rule run_paused) (simp_all add: interrupted_single)
      with Pair Inr show ?thesis
        by (simp add: init ni superstep_extract)
    qed
  qed
qed

lemma resume_graph:
  assumes "pending c = [Task ''human_feedback'' None]"
  shows "resume (Suc fuel) graph e c patch =
     run fuel graph e False
       \<lparr>channel_values = merge_update (channel_values c) patch,
        pending = [Task (should_human_feedback_continue (merge_update (channel_values c) patch)) None],
        calls = calls c,
        trace = trace c @ [([''human_feedback''], merge_update (channel_values c) patch)]\<rparr>"
  using assms by (simp add: resume_def superstep_human_feedback)


lemma iteration_merge: "iteration (merge_update s u) = overwrite (iteration s) (iteration u)"
  by (simp add: merge_update_def)

lemma draft_resume_update:
  "draft_resume e log s = (log', Inr u) \<Longrightarrow>
     \<exists>d. u = empty_dict\<lparr>resume_draft := Some d, editor_feedback := Some []\<rparr>"
  by (auto simp: draft_resume_def Let_def split: option.splits sum.splits)

lemma editor_critique_update:
  "editor_critique e log s = (log', Inr u) \<Longrightarrow>
     \<exists>fb. u = empty_dict\<lparr>editor_feedback := Some [fb]\<rparr>"
  by (auto simp: editor_critique_def Let_def split: option.splits sum.splits)

lemma write_final_draft_update:
  "write_final_draft e log s = (log', Inr u) \<Longrightarrow>
     \<exists>d. u = empty_dict\<lparr>resume_draft := Some d\<rparr>"
  by (auto simp: write_final_draft_def Let_def split: option.splits sum.splits)

lemma draft_resume_iteration:
  "draft_resume e log s = (log', Inr u) \<Longrightarrow> iteration (merge_update s u) = iteration s"
  by (auto dest!: draft_resume_update simp: iteration_merge overwrite_def empty_dict_def)

lemma editor_critique_iteration:
  "editor_critique e log s = (log', Inr u) \<Longrightarrow> iteration (merge_update s' u) = iteration s'"
  by (auto dest!: editor_critique_update simp: iteration_merge overwrite_def empty_dict_def)

lemma write_final_draft_iteration:
  "write_final_draft e log s = (log', Inr u) \<Longrightarrow> iteration (merge_update s u) = iteration s"
  by (auto dest!: write_final_draft_update simp: iteration_merge overwrite_def empty_dict_def)

lemma run_step:
  assumes "pending c \<noteq> []" and "r \<or> \<not> interrupted g c"
    and "run fuel g e r c = (out, c')" and "out = Done \<or> out = Paused"
  shows "\<exists>fuel' c1. fuel = Suc fuel' \<and> superstep g e c = Inr c1 \<and> run fuel' g e False c1 = (out, c')"
proof (cases fuel)
  case 0
  with assms show ?thesis by auto
next
  case (Suc fuel')
  with assms show ?thesis by (cases "superstep g e c") auto
qed

lemma run_final:
  assumes "pending c = [Task ''write_final_draft'' None]"
    and "run fuel graph e r c = (out, c')" and "out = Done \<or> out = Paused"
  shows "out = Done \<and> pending c' = [] \<and>
         iteration (channel_values c') = iteration (channel_values c) \<and>
         iter_trace c' = iter_trace c @ [([''write_final_draft''], dict_get (iteration (channel_values c)) 0)]"
proof -
  from assms obtain fuel' c1 where st: "superstep graph e c = Inr c1"
    and rest: "run fuel' graph e False c1 = (out, c')"
    using run_step [of c r graph fuel e out c'] by (auto simp: interrupted_single)
  from st assms(1) obtain log' u where
    w: "write_final_draft e (calls c) (channel_values c) = (log', Inr u)"
    and c1: "c1 = \<lparr>channel_values = merge_update (channel_values c) u, pending = [], calls = log',
              trace = trace c @ [([''write_final_draft''], merge_update (channel_values c) u)]\<rparr>"
    by (auto simp: superstep_final split: prod.splits sum.splits)
  from rest c1 have "out = Done" "c' = c1" by (simp_all add: run_done)
  then show ?thesis
    using c1 write_final_draft_iteration [OF w] by (simp add: iter_trace_def)
qed

lemma run_round:
  assumes "pending c = [Task ''draft_resume'' None]"
    and "run fuel graph e r c = (out, c')" and "out = Done \<or> out = Paused"
  shows "\<exists>fuel' c3. run fuel' graph e False c3 = (out, c') \<and>
          pending c3 = [Task (should_continue (channel_values c3)) None] \<and>
          iteration (channel_values c3) = Some (dict_get (iteration (channel_values c)) 0 + 1) \<and>
          iter_trace c3 = iter_trace c @
             [([''draft_resume''], dict_get (iteration (channel_values c)) 0),
              ([''editor_api'', ''editor_critique''], dict_get (iteration (channel_values c)) 0),
              ([''revise_resume''], dict_get (iteration (channel_values c)) 0 + 1)]"
proof -
  let ?s = "channel_values c"
  from assms obtain f1 c1 where st1: "superstep graph e c = Inr c1"
    and r1: "run f1 graph e False c1 = (out, c')"
    using run_step [of c r graph fuel e out c'] by (auto simp: interrupted_single)
  from st1 assms(1) obtain log1 u1 where
    d: "draft_resume e (calls c) ?s = (log1, Inr u1)"
    and c1: "c1 = \<lparr>channel_values = merge_update ?s u1,
              pending = [Task ''editor_api'' None, Task ''editor_critique'' None], calls = log1,
              trace = trace c @ [([''draft_resume''], merge_update ?s u1)]\<rparr>"
    by (auto simp: superstep_draft split: prod.splits sum.splits)
  let ?s1 = "merge_update ?s u1"
  have i1: "iteration ?s1 = iteration ?s" by (rule draft_resume_iteration [OF d])
  have p1: "pending c1 = [Task ''editor_api'' None, Task ''editor_critique'' None]"
    by (simp add: c1)
  from r1 p1 assms(3) obtain f2 c2 where st2: "superstep graph e c1 = Inr c2"
    and r2: "run f2 graph e False c2 = (out, c')"
    using run_step [of c1 False graph f1 e out c'] by (auto simp: interrupted_editors)
  let ?api = "empty_dict\<lparr>editor_feedback := Some [''[API editor returned no feedback]'']\<rparr>"
  from st2 p1 obtain log2 u2 where
    ec: "editor_critique e (calls c1) (channel_values c1) = (log2, Inr u2)"
    and c2: "c2 = \<lparr>channel_values = merge_update (merge_update (channel_values c1) ?api) u2,
              pending = [Task ''revise_resume'' None], calls = log2,
              trace = trace c1 @ [([''editor_api'', ''editor_critique''],
                        merge_update (merge_update (channel_values c1) ?api) u2)]\<rparr>"
    by (auto simp: superstep_editors Let_def split: prod.splits sum.splits)
  let ?s2 = "merge_update (merge_update ?s1 ?api) u2"
  have "iteration ?s2 = iteration (merge_update ?s1 ?api)"
    by (rule editor_critique_iteration [OF ec])
  also have "\<dots> = iteration ?s1"
    by (simp add: iteration_merge overwrite_def empty_dict_def)
  finally have i2: "iteration ?s2 = iteration ?s"
    using i1 by simp
  have v2: "channel_values c2 = ?s2" and p2: "pending c2 = [Task ''revise_resume'' None]"
    by (simp_all add: c2 c1)
  from r2 p2 assms(3) obtain f3 c3 where st3: "superstep graph e c2 = Inr c3"
    and r3: "run f3 graph e False c3 = (out, c')"
    using run_step [of c2 False graph f2 e out c'] by (auto simp: interrupted_single)
  let ?s3 = "?s2\<lparr>iteration := Some (dict_get (iteration ?s2) 0 + 1)\<rparr>"
  from st3 p2 v2 have c3: "c3 = \<lparr>channel_values = ?s3,
             pending = [Task (should_continue ?s3) None], calls = calls c2,
             trace = trace c2 @ [([''revise_resume''], ?s3)]\<rparr>"
    by (simp add: superstep_revise Let_def)
  have t3: "trace c3 = trace c @ [([''draft_resume''], ?s1),
       ([''editor_api'', ''editor_critique''], ?s2), ([''revise_resume''], ?s3)]"
    by (simp add: c3 c2 c1)
  have "iter_trace c3 = iter_trace c @
             [([''draft_resume''], dict_get (iteration ?s) 0),
              ([''editor_api'', ''editor_critique''], dict_get (iteration ?s) 0),
              ([''revise_resume''], dict_get (iteration ?s) 0 + 1)]"
    unfolding iter_trace_def t3 by (simp add: i1 i2 dict_get_def)
  moreover have "iteration (channel_values c3) = Some (dict_get (iteration ?s) 0 + 1)"
    by (simp add: c3 i2)
  moreover have "pending c3 = [Task (should_continue (channel_values c3)) None]"
    by (simp add: c3)
  ultimately show ?thesis using r3 by blast
qed

lemma run_tasks_no_routing_error: "run_tasks g e s log ts \<noteq> Inl (RoutingError n m)"
proof (induction ts arbitrary: log)
  case Nil
  then show ?case by simp
next
  case (Cons t ts)
  obtain k inp where t: "t = Task k inp" by (cases t)
  show ?case
    using Cons.IH unfolding t
    by (auto split: option.splits prod.splits sum.splits)
qed

lemma successors_graph_total: "\<exists>ts. successors graph s n = Inr ts"
  by (simp add: successors_def branches_of_def graph_def should_human_feedback_continue_def
        should_continue_def)

lemma all_successors_graph_total: "\<exists>ts. all_successors graph s ns = Inr ts"
proof (induction ns)
  case Nil
  then show ?case by simp
next
  case (Cons n ns)
  obtain ts where "successors graph s n = Inr ts" using successors_graph_total by blast
  with Cons show ?case by auto
qed

lemma superstep_no_routing_error: "superstep graph e c \<noteq> Inl (RoutingError n m)"
proof (cases "run_tasks graph e (channel_values c) (calls c) (pending c)")
  case (Inl err)
  then have "superstep graph e c = Inl err" by (simp add: superstep_def)
  moreover have "err \<noteq> RoutingError n m" using Inl run_tasks_no_routing_error [of graph e] by metis
  ultimately show ?thesis by simp
next
  case (Inr res)
  obtain log' us where res: "res = (log', us)" by (cases res)
  obtain ts where "all_successors graph (foldl merge_update (channel_values c) us)
      (map task_node (pending c)) = Inr ts"
    using all_successors_graph_total by blast
  with Inr res show ?thesis by (simp add: superstep_def Let_def)
qed

lemma run_no_routing_error: "fst (run fuel graph e r c) \<noteq> Failed (RoutingError n m)"
proof (induction fuel arbitrary: r c)
  case 0
  then show ?case by simp
next
  case (Suc fuel)
  show ?case
  proof (cases "superstep graph e c")
    case (Inl err)
    then have "err \<noteq> RoutingError n m" using superstep_no_routing_error [of e c n m] by simp
    with Inl show ?thesis by simp
  next
    case (Inr c')
    with Suc.IH [of False c'] show ?thesis by simp
  qed
qed

section \<open>Routing on the iteration count\<close>

text \<open>
  Claim C5. For every state, \<^verbatim>\<open>should_continue\<close> returns \<^verbatim>\<open>write_final_draft\<close> if and only
  if the iteration counter is at least 2, and otherwise returns \<^verbatim>\<open>draft_resume\<close>. The
  counter is the value the code reads, \<^verbatim>\<open>state.get("iteration", 0)\<close>; it is at least 2
  exactly when the key is present with a value of at least 2.
\<close>

theorem should_continue_routes:
  "(should_continue s = ''write_final_draft'') = (2 \<le> dict_get (iteration s) 0) \<and>
   (should_continue s = ''draft_resume'') = (dict_get (iteration s) 0 < 2) \<and>
   (2 \<le> dict_get (iteration s) 0) = (\<exists>i. iteration s = Some i \<and> 2 \<le> i)"
  by (auto simp: should_continue_def dict_get_def split: option.splits)

theorem should_continue_routes_witness:
  "should_continue (empty_dict\<lparr>iteration := Some 2\<rparr>) = ''write_final_draft'' \<and>
   should_continue (empty_dict\<lparr>iteration := Some 1\<rparr>) = ''draft_resume''"
  using should_continue_routes [of "empty_dict\<lparr>iteration := Some 2\<rparr>"]
        should_continue_routes [of "empty_dict\<lparr>iteration := Some 1\<rparr>"]
  by (simp add: dict_get_def)

section \<open>The revision counter\<close>

text \<open>
  Claim C7. For every state, the update returned by \<^verbatim>\<open>revise_resume\<close> sets
  \<^verbatim>\<open>iteration\<close> to one more than its current value (0 when the key is absent) and
  changes no other field: the update has the single key \<^verbatim>\<open>iteration\<close>, the node sends
  nothing to the language model, and merging the update gives the same state with only
  \<^verbatim>\<open>iteration\<close> replaced.
\<close>

theorem revise_resume_increments_only:
  "revise_resume e log s = (log, Inr (empty_dict\<lparr>iteration := Some (dict_get (iteration s) 0 + 1)\<rparr>)) \<and>
   merge_update s (empty_dict\<lparr>iteration := Some (dict_get (iteration s) 0 + 1)\<rparr>)
     = s\<lparr>iteration := Some (dict_get (iteration s) 0 + 1)\<rparr> \<and>
   (\<forall>i. iteration s = Some i \<longrightarrow>
      iteration (merge_update s (empty_dict\<lparr>iteration := Some (dict_get (iteration s) 0 + 1)\<rparr>))
        = Some (i + 1))"
  by (simp add: revise_resume_def merge_iteration dict_get_def)

theorem revise_resume_increments_only_witness:
  "revise_resume stub_env [] (example_input\<lparr>iteration := Some 1\<rparr>)
     = ([], Inr (empty_dict\<lparr>iteration := Some 2\<rparr>)) \<and>
   merge_update (example_input\<lparr>iteration := Some 1\<rparr>) (empty_dict\<lparr>iteration := Some 2\<rparr>)
     = example_input\<lparr>iteration := Some 2\<rparr>"
  using revise_resume_increments_only [of stub_env "[]" "example_input\<lparr>iteration := Some 1\<rparr>"]
  by (simp add: dict_get_def)

section \<open>Routing functions stay inside their declared successors\<close>

text \<open>
  Claim C9. For every state, each routing function is total and returns a member of the
  successor list declared with it in \<^verbatim>\<open>add_conditional_edges\<close>:
  \<^verbatim>\<open>should_human_feedback_continue\<close> returns \<^verbatim>\<open>draft_resume\<close> or
  \<^verbatim>\<open>extract_qualifications\<close>, and \<^verbatim>\<open>should_continue\<close> returns \<^verbatim>\<open>write_final_draft\<close> or
  \<^verbatim>\<open>draft_resume\<close>. Hence dispatching on either conditional edge never gives a
  \<open>RoutingError\<close>, and neither a round nor a run of the main graph ever fails with one.
\<close>

theorem routers_stay_in_declared_sets:
  "should_human_feedback_continue s \<in> set [''extract_qualifications'', ''draft_resume''] \<and>
   should_continue s' \<in> set [''draft_resume'', ''write_final_draft''] \<and>
   map (\<lambda>b. (fst b, snd (snd b))) (branches graph) =
     [(''human_feedback'', [''extract_qualifications'', ''draft_resume'']),
      (''revise_resume'', [''draft_resume'', ''write_final_draft''])] \<and>
   route ''human_feedback'' s
      ((\<lambda>s. Inr (Goto (should_human_feedback_continue s))), [''extract_qualifications'', ''draft_resume''])
     = Inr [Task (should_human_feedback_continue s) None] \<and>
   route ''revise_resume'' s'
      ((\<lambda>s. Inr (Goto (should_continue s))), [''draft_resume'', ''write_final_draft''])
     = Inr [Task (should_continue s') None] \<and>
   superstep graph e c \<noteq> Inl (RoutingError n m) \<and>
   fst (run fuel graph e r c) \<noteq> Failed (RoutingError n m)"
  using superstep_no_routing_error [of e c n m] run_no_routing_error [of fuel e r c n m]
  by (simp add: should_human_feedback_continue_def should_continue_def graph_def)

theorem routers_stay_in_declared_sets_witness:
  "should_human_feedback_continue ok_patch = ''draft_resume'' \<and>
   should_continue example_input = ''draft_resume'' \<and>
   fst (run 0 graph stub_env False
         \<lparr>channel_values = example_input, pending = [], calls = [], trace = []\<rparr>)
     \<noteq> Failed (RoutingError ''human_feedback'' ''nowhere'')"
  using routers_stay_in_declared_sets [of ok_patch example_input stub_env
          "\<lparr>channel_values = example_input, pending = [], calls = [], trace = []\<rparr>"
          "''human_feedback''" "''nowhere''" 0 False]
  by (simp add: should_human_feedback_continue_def should_continue_def ok_patch_def
        example_input_def empty_dict_def dict_get_def)

section \<open>Extraction of the qualifications\<close>

lemma extraction_request_eq:
  "job_post s = Some jp \<Longrightarrow> extraction_request s =
     [SystemMessage (qualification_instructions jp (dict_get (human_feedback s) [])),
      HumanMessage ''Extract the qualifications now.'']"
  by (simp add: extraction_request_def dict_get_def)

lemma extract_qualifications_eq:
  "job_post s = Some jp \<Longrightarrow> extract_qualifications e log s =
     (log @ [extraction_request s],
      case structured_invoke e log (extraction_request s) of
        Inl err \<Rightarrow> Inl err
      | Inr q \<Rightarrow> Inr (empty_dict\<lparr>qualifications := Some q\<rparr>))"
  by (simp add: extract_qualifications_def extraction_request_eq Let_def)

lemma extract_qualifications_without_job_post:
  "job_post s = None \<Longrightarrow> extract_qualifications e log s = (log, Inl (KeyError ''job_post''))"
  by (simp add: extract_qualifications_def)

lemma merge_qualifications:
  "merge_update s (empty_dict\<lparr>qualifications := Some q\<rparr>) = s\<lparr>qualifications := Some q\<rparr>"
  by (rule state.equality)
     (simp_all add: merge_update_def empty_dict_def overwrite_def operator_add_def)

text \<open>
  Claim C8. For every state that holds the job post (a mandatory input of the workflow;
  without it \<^verbatim>\<open>state["job_post"]\<close> raises \<^verbatim>\<open>KeyError\<close> before anything is sent, see
  \<open>extract_qualifications_without_job_post\<close>), \<^verbatim>\<open>extract_qualifications\<close> sends exactly one
  request to the language model, whose system prompt embeds the text of \<^verbatim>\<open>job_post\<close> and
  the text of \<^verbatim>\<open>human_feedback\<close> (the empty text when absent). When the model answers
  with qualifications, the returned update has the single key \<^verbatim>\<open>qualifications\<close> holding
  that answer, so merging it replaces the field as a whole; and the call does not depend
  on qualifications extracted before, so a second call with new feedback derives them
  from scratch.
\<close>

theorem extract_qualifications_one_call_full_replacement:
  assumes "job_post s = Some jp"
  shows "fst (extract_qualifications e log s) = log @ [extraction_request s] \<and>
         extraction_request s =
           [SystemMessage (qualification_instructions jp (dict_get (human_feedback s) [])),
            HumanMessage ''Extract the qualifications now.''] \<and>
         sublist jp (qualification_instructions jp (dict_get (human_feedback s) [])) \<and>
         sublist (dict_get (human_feedback s) [])
                 (qualification_instructions jp (dict_get (human_feedback s) [])) \<and>
         (\<forall>q. structured_invoke e log (extraction_request s) = Inr q \<longrightarrow>
               snd (extract_qualifications e log s) = Inr (empty_dict\<lparr>qualifications := Some q\<rparr>) \<and>
               merge_update s (empty_dict\<lparr>qualifications := Some q\<rparr>) = s\<lparr>qualifications := Some q\<rparr>) \<and>
         (\<forall>old. extract_qualifications e log (s\<lparr>qualifications := old\<rparr>)
                  = extract_qualifications e log s)"
proof -
  have "sublist jp (qualification_instructions jp (dict_get (human_feedback s) []))"
    unfolding qualification_instructions_def by (rule sublist_join) simp
  moreover have "sublist (dict_get (human_feedback s) [])
                 (qualification_instructions jp (dict_get (human_feedback s) []))"
    unfolding qualification_instructions_def by (rule sublist_join) simp
  moreover have "\<forall>old. extract_qualifications e log (s\<lparr>qualifications := old\<rparr>)
                  = extract_qualifications e log s"
    using assms by (simp add: extract_qualifications_def)
  ultimately show ?thesis
    using assms
    by (simp add: extract_qualifications_eq extraction_request_eq [OF assms] merge_qualifications)
qed

theorem extract_qualifications_one_call_full_replacement_witness:
  "job_post (example_input\<lparr>human_feedback := Some ''need AWS keyword''\<rparr>) = Some ''Data engineer'' \<and>
   fst (extract_qualifications stub_env [] (example_input\<lparr>human_feedback := Some ''need AWS keyword''\<rparr>))
     = [[SystemMessage (qualification_instructions ''Data engineer'' ''need AWS keyword''),
         HumanMessage ''Extract the qualifications now.'']] \<and>
   sublist ''need AWS keyword'' (qualification_instructions ''Data engineer'' ''need AWS keyword'')"
proof -
  have h: "job_post (example_input\<lparr>human_feedback := Some ''need AWS keyword''\<rparr>) = Some ''Data engineer''"
    by (simp add: example_input_def empty_dict_def)
  show ?thesis
    using h extract_qualifications_one_call_full_replacement [OF h, of stub_env "[]"]
    by (simp add: dict_get_def)
qed

section \<open>How the editors are dispatched\<close>

lemma run_tasks_editors:
  "run_tasks graph e s log [Task ''editor_api'' None, Task ''editor_critique'' None] =
     (case editor_critique e log s of
        (log', Inl err) \<Rightarrow> Inl (NodeExecutionError ''editor_critique'' err)
      | (log', Inr u) \<Rightarrow>
          Inr (log', [empty_dict\<lparr>editor_feedback := Some [''[API editor returned no feedback]'']\<rparr>, u]))"
  by (simp add: node_lookup editor_api_def split: prod.splits sum.splits)

lemma static_targets_graph:
  "static_targets graph ''draft_resume'' = [''editor_api'', ''editor_critique'']"
  "static_targets graph ''editor_api'' = [''revise_resume'']"
  "static_targets graph ''editor_critique'' = [''revise_resume'']"
  "branches_of graph ''draft_resume'' = []"
  by (simp_all add: static_targets_def branches_of_def graph_def START_def)

text \<open>
  Claim C3, as amended. In the main graph \<^verbatim>\<open>editor_api\<close> and \<^verbatim>\<open>editor_critique\<close> are
  the targets of two static edges from \<^verbatim>\<open>draft_resume\<close> (and both lead to
  \<^verbatim>\<open>revise_resume\<close>); no conditional edge leaves \<^verbatim>\<open>draft_resume\<close>, so
  \<^verbatim>\<open>send_to_editors\<close> is attached to nothing and each editor runs on the full state.
  Called on a state whose \<^verbatim>\<open>resume_draft\<close> is \<open>d\<close>, \<^verbatim>\<open>send_to_editors\<close> returns two
  packets, for \<^verbatim>\<open>editor_api\<close> and \<^verbatim>\<open>editor_critique\<close>, each with a payload whose only
  key is \<^verbatim>\<open>resume_draft\<close> = \<open>d\<close> (and raises \<^verbatim>\<open>KeyError\<close> when the draft is absent);
  each editor returns on that payload what it returns on the full state.
\<close>

theorem editors_dispatched_by_static_edges:
  "static_targets graph ''draft_resume'' = [''editor_api'', ''editor_critique''] \<and>
   branches_of graph ''draft_resume'' = [] \<and>
   static_targets graph ''editor_api'' = [''revise_resume''] \<and>
   static_targets graph ''editor_critique'' = [''revise_resume''] \<and>
   successors graph s ''draft_resume'' = Inr [Task ''editor_api'' None, Task ''editor_critique'' None] \<and>
   run_tasks graph e s log [Task ''editor_api'' None, Task ''editor_critique'' None] =
     (case editor_critique e log s of
        (log', Inl err) \<Rightarrow> Inl (NodeExecutionError ''editor_critique'' err)
      | (log', Inr u) \<Rightarrow>
          Inr (log', [empty_dict\<lparr>editor_feedback := Some [''[API editor returned no feedback]'']\<rparr>, u])) \<and>
   (\<forall>d. resume_draft s = Some d \<longrightarrow>
      send_to_editors s =
        Inr [Send ''editor_api'' (empty_dict\<lparr>resume_draft := Some d\<rparr>),
             Send ''editor_critique'' (empty_dict\<lparr>resume_draft := Some d\<rparr>)]) \<and>
   (resume_draft s = None \<longrightarrow> send_to_editors s = Inl (KeyError ''resume_draft'')) \<and>
   editor_api e log (empty_dict\<lparr>resume_draft := resume_draft s\<rparr>) = editor_api e log s \<and>
   editor_critique e log (empty_dict\<lparr>resume_draft := resume_draft s\<rparr>) = editor_critique e log s"
proof -
  have "editor_api e log (empty_dict\<lparr>resume_draft := resume_draft s\<rparr>) = editor_api e log s"
    by (simp add: editor_api_def)
  moreover have "editor_critique e log (empty_dict\<lparr>resume_draft := resume_draft s\<rparr>)
      = editor_critique e log s"
    by (simp add: editor_critique_def)
  moreover have "\<forall>d. resume_draft s = Some d \<longrightarrow>
      send_to_editors s =
        Inr [Send ''editor_api'' (empty_dict\<lparr>resume_draft := Some d\<rparr>),
             Send ''editor_critique'' (empty_dict\<lparr>resume_draft := Some d\<rparr>)]"
    by (simp add: send_to_editors_def)
  moreover have "resume_draft s = None \<longrightarrow> send_to_editors s = Inl (KeyError ''resume_draft'')"
    by (simp add: send_to_editors_def)
  ultimately show ?thesis
    using run_tasks_editors [of e s log]
    by (simp only: static_targets_graph successors_graph simp_thms)
qed

theorem editors_dispatched_by_static_edges_witness:
  "send_to_editors (example_input\<lparr>resume_draft := Some ''draft''\<rparr>) =
     Inr [Send ''editor_api'' (empty_dict\<lparr>resume_draft := Some ''draft''\<rparr>),
          Send ''editor_critique'' (empty_dict\<lparr>resume_draft := Some ''draft''\<rparr>)] \<and>
   send_to_editors example_input = Inl (KeyError ''resume_draft'') \<and>
   successors graph (example_input\<lparr>resume_draft := Some ''draft''\<rparr>) ''draft_resume''
     = Inr [Task ''editor_api'' None, Task ''editor_critique'' None]"
  using editors_dispatched_by_static_edges [of "example_input\<lparr>resume_draft := Some ''draft''\<rparr>" stub_env "[]"]
        editors_dispatched_by_static_edges [of example_input stub_env "[]"]
  by (simp add: example_input_def empty_dict_def)

text \<open>
  Claim C3 as stated fails: after \<^verbatim>\<open>draft_resume\<close> the graph schedules the two editors
  without a payload, not the packets \<^verbatim>\<open>send_to_editors\<close> would build, and the state they
  read is not the payload.
\<close>

theorem editors_receive_payload_counterexample:
  "send_to_editors (example_input\<lparr>resume_draft := Some ''draft''\<rparr>) =
     Inr [Send ''editor_api'' (empty_dict\<lparr>resume_draft := Some ''draft''\<rparr>),
          Send ''editor_critique'' (empty_dict\<lparr>resume_draft := Some ''draft''\<rparr>)] \<and>
   successors graph (example_input\<lparr>resume_draft := Some ''draft''\<rparr>) ''draft_resume''
     = Inr [Task ''editor_api'' None, Task ''editor_critique'' None] \<and>
   successors graph (example_input\<lparr>resume_draft := Some ''draft''\<rparr>) ''draft_resume''
     \<noteq> Inr (map send_task
              [Send ''editor_api'' (empty_dict\<lparr>resume_draft := Some ''draft''\<rparr>),
               Send ''editor_critique'' (empty_dict\<lparr>resume_draft := Some ''draft''\<rparr>)]) \<and>
   branches_of graph ''draft_resume'' = [] \<and>
   example_input\<lparr>resume_draft := Some ''draft''\<rparr> \<noteq> empty_dict\<lparr>resume_draft := Some ''draft''\<rparr>"
  by (simp add: successors_graph static_targets_graph send_to_editors_def example_input_def
        empty_dict_def)

section \<open>Invocation, suspension and resumption\<close>

lemma invoke_pauses:
  assumes "job_post s = Some jp" and "structured_invoke e [] (extraction_request s) = Inr q"
  shows "invoke (Suc fuel) graph e s =
     (Paused,
      \<lparr>channel_values = s\<lparr>qualifications := Some q\<rparr>, pending = [Task ''human_feedback'' None],
       calls = [extraction_request s],
       trace = [([''extract_qualifications''], s\<lparr>qualifications := Some q\<rparr>)]\<rparr>)"
  using assms by (simp add: invoke_graph qua_graph_eq merge_job_quals)

lemma invoke_zero: "invoke 0 graph e s =
   (OutOfFuel, \<lparr>channel_values = s, pending = [Task ''extract_qualifications'' None], calls = [],
       trace = []\<rparr>)"
  by (simp add: invoke_def static_targets_START next_tasks_single END_def interrupted_single)

lemma invoke_paused_shape:
  assumes "invoke fuel graph e s = (Paused, c)"
  shows "\<exists>q. c = \<lparr>channel_values = s\<lparr>qualifications := Some q\<rparr>,
                 pending = [Task ''human_feedback'' None],
                 calls = [extraction_request s],
                 trace = [([''extract_qualifications''], s\<lparr>qualifications := Some q\<rparr>)]\<rparr>"
proof (cases fuel)
  case 0
  with assms show ?thesis by (simp add: invoke_zero)
next
  case (Suc fuel')
  show ?thesis
  proof (cases "job_post s")
    case None
    with assms Suc show ?thesis by (simp add: invoke_graph qua_graph_eq)
  next
    case (Some jp)
    show ?thesis
    proof (cases "structured_invoke e [] (extraction_request s)")
      case (Inl err)
      with assms Suc Some show ?thesis by (simp add: invoke_graph qua_graph_eq)
    next
      case (Inr q)
      from invoke_pauses [OF Some Inr, of fuel'] assms Suc show ?thesis by auto
    qed
  qed
qed

lemma invoke_not_done: "fst (invoke fuel graph e s) \<noteq> Done"
proof (cases fuel)
  case 0
  then show ?thesis by (simp add: invoke_zero)
next
  case (Suc fuel')
  then show ?thesis
    by (simp add: invoke_graph split: prod.splits sum.splits)
qed

lemma invoke_example: "invoke (Suc fuel) graph stub_env example_input = (Paused, example_checkpoint)"
proof -
  have jp: "job_post example_input = Some ''Data engineer''"
    by (simp add: example_input_def empty_dict_def)
  have q: "structured_invoke stub_env [] (extraction_request example_input)
      = Inr \<lparr>required = [''AWS''], preferred = [''Power BI'']\<rparr>"
    by (simp add: stub_env_def)
  show ?thesis
    unfolding example_checkpoint_def by (rule invoke_pauses [OF jp q])
qed

text \<open>
  Claim C2. The graph is compiled with \<^verbatim>\<open>interrupt_before=["human_feedback"]\<close>. Every
  invocation runs the extraction step and then, unless that step failed (the failure is
  returned as a \<open>NodeExecutionError\<close> naming \<^verbatim>\<open>extract_qualifications\<close>), suspends
  immediately before \<^verbatim>\<open>human_feedback\<close>: the result is \<open>Paused\<close> with the checkpoint,
  that is the state after the extraction and \<^verbatim>\<open>human_feedback\<close> as the pending node,
  which has not run. In particular an invocation with a job post whose extraction call
  answers does suspend. Resuming a handle paused at \<^verbatim>\<open>human_feedback\<close> with a patch
  merges the patch into the checkpointed state and continues from the interrupted node:
  the first round runs \<^verbatim>\<open>human_feedback\<close> on the merged state and execution goes on
  from the successor its routing function picks for that state.
\<close>

theorem invoke_suspends_before_human_feedback:
  "interrupt_before graph = [''human_feedback''] \<and>
   invoke (Suc fuel) graph e s =
     (case qua_graph e [] s of
        (log', Inl err) \<Rightarrow>
          (Failed (NodeExecutionError ''extract_qualifications'' err),
           \<lparr>channel_values = s, pending = [Task ''extract_qualifications'' None], calls = [],
            trace = []\<rparr>)
      | (log', Inr u) \<Rightarrow>
          (Paused,
           \<lparr>channel_values = merge_update s u, pending = [Task ''human_feedback'' None],
            calls = log', trace = [([''extract_qualifications''], merge_update s u)]\<rparr>)) \<and>
   (\<forall>jp q. job_post s = Some jp \<and> structured_invoke e [] (extraction_request s) = Inr q \<longrightarrow>
      invoke (Suc fuel) graph e s =
        (Paused,
         \<lparr>channel_values = s\<lparr>qualifications := Some q\<rparr>, pending = [Task ''human_feedback'' None],
          calls = [extraction_request s],
          trace = [([''extract_qualifications''], s\<lparr>qualifications := Some q\<rparr>)]\<rparr>)) \<and>
   (pending c = [Task ''human_feedback'' None] \<longrightarrow>
      resume (Suc fuel') graph e c patch =
        run fuel' graph e False
          \<lparr>channel_values = merge_update (channel_values c) patch,
           pending = [Task (should_human_feedback_continue (merge_update (channel_values c) patch)) None],
           calls = calls c,
           trace = trace c @ [([''human_feedback''], merge_update (channel_values c) patch)]\<rparr>)"
proof -
  have "interrupt_before graph = [''human_feedback'']" by (simp add: graph_def)
  moreover note invoke_graph [of fuel e s]
  moreover have "\<forall>jp q. job_post s = Some jp \<and> structured_invoke e [] (extraction_request s) = Inr q \<longrightarrow>
      invoke (Suc fuel) graph e s =
        (Paused,
         \<lparr>channel_values = s\<lparr>qualifications := Some q\<rparr>, pending = [Task ''human_feedback'' None],
          calls = [extraction_request s],
          trace = [([''extract_qualifications''], s\<lparr>qualifications := Some q\<rparr>)]\<rparr>)"
    using invoke_pauses by blast
  moreover have "pending c = [Task ''human_feedback'' None] \<longrightarrow>
      resume (Suc fuel') graph e c patch =
        run fuel' graph e False
          \<lparr>channel_values = merge_update (channel_values c) patch,
           pending = [Task (should_human_feedback_continue (merge_update (channel_values c) patch)) None],
           calls = calls c,
           trace = trace c @ [([''human_feedback''], merge_update (channel_values c) patch)]\<rparr>"
    using resume_graph by blast
  ultimately show ?thesis by blast
qed

theorem invoke_suspends_before_human_feedback_witness:
  "invoke (Suc 0) graph stub_env example_input = (Paused, example_checkpoint) \<and>
   pending example_checkpoint = [Task ''human_feedback'' None] \<and>
   nodes_run example_checkpoint = [''extract_qualifications''] \<and>
   resume (Suc 0) graph stub_env example_checkpoint ok_patch =
     (OutOfFuel,
      \<lparr>channel_values = merge_update (channel_values example_checkpoint) ok_patch,
       pending = [Task ''draft_resume'' None],
       calls = calls example_checkpoint,
       trace = trace example_checkpoint
         @ [([''human_feedback''], merge_update (channel_values example_checkpoint) ok_patch)]\<rparr>)"
proof -
  have jp: "job_post example_input = Some ''Data engineer''"
    by (simp add: example_input_def empty_dict_def)
  have q: "structured_invoke stub_env [] (extraction_request example_input)
      = Inr \<lparr>required = [''AWS''], preferred = [''Power BI'']\<rparr>"
    by (simp add: stub_env_def)
  have p: "pending example_checkpoint = [Task ''human_feedback'' None]"
    by (simp add: example_checkpoint_def)
  have r: "should_human_feedback_continue (merge_update (channel_values example_checkpoint) ok_patch)
      = ''draft_resume''"
    by (simp add: should_human_feedback_continue_def merge_update_def ok_patch_def empty_dict_def
          overwrite_def)
  note T = invoke_suspends_before_human_feedback
            [of 0 stub_env example_input example_checkpoint 0 ok_patch]
  have inv: "invoke (Suc 0) graph stub_env example_input = (Paused, example_checkpoint)"
    using T [THEN conjunct2, THEN conjunct2, THEN conjunct1, rule_format, OF conjI, OF jp q]
    by (simp add: example_checkpoint_def)
  have res: "resume (Suc 0) graph stub_env example_checkpoint ok_patch =
      run 0 graph stub_env False
          \<lparr>channel_values = merge_update (channel_values example_checkpoint) ok_patch,
           pending = [Task ''draft_resume'' None],
           calls = calls example_checkpoint,
           trace = trace example_checkpoint
             @ [([''human_feedback''], merge_update (channel_values example_checkpoint) ok_patch)]\<rparr>"
    using T [THEN conjunct2, THEN conjunct2, THEN conjunct2, rule_format, OF p]
    by (simp add: r)
  have n: "nodes_run example_checkpoint = [''extract_qualifications'']"
    by (simp add: example_checkpoint_def nodes_run_def)
  show ?thesis
    by (simp add: inv p n res interrupted_single)
qed

section \<open>Routing after the human feedback gate\<close>

lemma human_feedback_merge:
  "human_feedback (merge_update s p) = overwrite (human_feedback s) (human_feedback p)"
  by (simp add: merge_update_def)

text \<open>
  Claim C4. For every state, the routing function after the feedback gate returns
  \<^verbatim>\<open>draft_resume\<close> if and only if \<^verbatim>\<open>human_feedback\<close> is absent or equals \<^verbatim>\<open>"ok"\<close>, and
  \<^verbatim>\<open>extract_qualifications\<close> otherwise. Consequently, for every initial state whose
  \<^verbatim>\<open>human_feedback\<close> is absent or \<^verbatim>\<open>"ok"\<close>: when the invocation has paused at the gate,
  only \<^verbatim>\<open>extract_qualifications\<close> has run, once; and resuming (with a patch that leaves
  the feedback alone or sets it to \<^verbatim>\<open>"ok"\<close>) runs \<^verbatim>\<open>human_feedback\<close> and continues with
  \<^verbatim>\<open>draft_resume\<close> as the pending node, so the workflow reaches \<^verbatim>\<open>draft_resume\<close>
  without running \<^verbatim>\<open>extract_qualifications\<close> again.
\<close>

theorem feedback_gate_routes:
  "(should_human_feedback_continue s = ''draft_resume'')
      = (human_feedback s = None \<or> human_feedback s = Some ''ok'') \<and>
   (should_human_feedback_continue s = ''extract_qualifications'')
      = (\<not> (human_feedback s = None \<or> human_feedback s = Some ''ok'')) \<and>
   ((human_feedback s = None \<or> human_feedback s = Some ''ok'') \<longrightarrow>
      (\<forall>c. invoke fuel graph e s = (Paused, c) \<longrightarrow>
         nodes_run c = [''extract_qualifications''] \<and>
         pending c = [Task ''human_feedback'' None] \<and>
         (\<forall>p. human_feedback p = None \<or> human_feedback p = Some ''ok'' \<longrightarrow>
            resume (Suc fuel') graph e c p =
              run fuel' graph e False
                \<lparr>channel_values = merge_update (channel_values c) p,
                 pending = [Task ''draft_resume'' None],
                 calls = calls c,
                 trace = trace c @ [([''human_feedback''], merge_update (channel_values c) p)]\<rparr>)))"
proof -
  have a: "(should_human_feedback_continue s = ''draft_resume'')
      = (human_feedback s = None \<or> human_feedback s = Some ''ok'')" for s
    by (simp add: should_human_feedback_continue_def)
  have b: "(should_human_feedback_continue s = ''extract_qualifications'')
      = (\<not> (human_feedback s = None \<or> human_feedback s = Some ''ok''))"
    by (simp add: should_human_feedback_continue_def)
  have c: "nodes_run c = [''extract_qualifications''] \<and>
         pending c = [Task ''human_feedback'' None] \<and>
         (\<forall>p. human_feedback p = None \<or> human_feedback p = Some ''ok'' \<longrightarrow>
            resume (Suc fuel') graph e c p =
              run fuel' graph e False
                \<lparr>channel_values = merge_update (channel_values c) p,
                 pending = [Task ''draft_resume'' None],
                 calls = calls c,
                 trace = trace c @ [([''human_feedback''], merge_update (channel_values c) p)]\<rparr>)"
    if hf: "human_feedback s = None \<or> human_feedback s = Some ''ok''"
      and inv: "invoke fuel graph e s = (Paused, c)" for c
  proof -
    from invoke_paused_shape [OF inv] obtain q where
      c: "c = \<lparr>channel_values = s\<lparr>qualifications := Some q\<rparr>,
                 pending = [Task ''human_feedback'' None],
                 calls = [extraction_request s],
                 trace = [([''extract_qualifications''], s\<lparr>qualifications := Some q\<rparr>)]\<rparr>"
      by blast
    have pc: "pending c = [Task ''human_feedback'' None]" by (simp add: c)
    have hc: "human_feedback (channel_values c) = human_feedback s" by (simp add: c)
    have "should_human_feedback_continue (merge_update (channel_values c) p) = ''draft_resume''"
      if "human_feedback p = None \<or> human_feedback p = Some ''ok''" for p
      using that hf by (auto simp: a human_feedback_merge hc overwrite_def)
    then show ?thesis
      using resume_graph [OF pc, of fuel' e] by (simp add: c nodes_run_def)
  qed
  from a b c show ?thesis by blast
qed

theorem feedback_gate_routes_witness:
  "should_human_feedback_continue example_input = ''draft_resume'' \<and>
   should_human_feedback_continue (example_input\<lparr>human_feedback := Some ''need AWS keyword''\<rparr>)
     = ''extract_qualifications'' \<and>
   human_feedback example_input = None \<and>
   invoke (Suc 0) graph stub_env example_input = (Paused, example_checkpoint) \<and>
   nodes_run example_checkpoint = [''extract_qualifications''] \<and>
   resume (Suc 0) graph stub_env example_checkpoint empty_dict =
     run 0 graph stub_env False
       \<lparr>channel_values = merge_update (channel_values example_checkpoint) empty_dict,
        pending = [Task ''draft_resume'' None],
        calls = calls example_checkpoint,
        trace = trace example_checkpoint
          @ [([''human_feedback''], merge_update (channel_values example_checkpoint) empty_dict)]\<rparr>"
proof -
  have hf: "human_feedback example_input = None"
    by (simp add: example_input_def empty_dict_def)
  have hf': "human_feedback (example_input\<lparr>human_feedback := Some ''need AWS keyword''\<rparr>)
      = Some ''need AWS keyword''"
    by simp
  have inv: "invoke (Suc 0) graph stub_env example_input = (Paused, example_checkpoint)"
    using invoke_example [of 0] by simp
  have e: "human_feedback empty_dict = None" by (simp add: empty_dict_def)
  show ?thesis
    using feedback_gate_routes [of example_input "Suc 0" stub_env 0]
          feedback_gate_routes [of "example_input\<lparr>human_feedback := Some ''need AWS keyword''\<rparr>" "Suc 0" stub_env 0]
          hf hf' inv e
    by simp
qed

section \<open>Two rounds, then the final draft\<close>

lemma run_from_draft:
  assumes p: "pending c = [Task ''draft_resume'' None]"
    and i: "dict_get (iteration (channel_values c)) 0 = 0"
    and r: "run fuel graph e r c = (out, c')" and o: "out = Done \<or> out = Paused"
  shows "out = Done \<and> pending c' = [] \<and> iteration (channel_values c') = Some 2 \<and>
         iter_trace c' = iter_trace c @ two_rounds"
proof -
  from run_round [OF p r o] i obtain f3 c3 where
    r3: "run f3 graph e False c3 = (out, c')"
    and p3: "pending c3 = [Task (should_continue (channel_values c3)) None]"
    and i3: "iteration (channel_values c3) = Some 1"
    and t3: "iter_trace c3 = iter_trace c @
             [([''draft_resume''], 0), ([''editor_api'', ''editor_critique''], 0),
              ([''revise_resume''], 1)]"
    by auto
  have "should_continue (channel_values c3) = ''draft_resume''"
    by (simp add: should_continue_def i3 dict_get_def)
  with p3 have p3': "pending c3 = [Task ''draft_resume'' None]" by simp
  have d3: "dict_get (iteration (channel_values c3)) 0 = 1" by (simp add: i3 dict_get_def)
  from run_round [OF p3' r3 o] d3 obtain f6 c6 where
    r6: "run f6 graph e False c6 = (out, c')"
    and p6: "pending c6 = [Task (should_continue (channel_values c6)) None]"
    and i6: "iteration (channel_values c6) = Some 2"
    and t6: "iter_trace c6 = iter_trace c3 @
             [([''draft_resume''], 1), ([''editor_api'', ''editor_critique''], 1),
              ([''revise_resume''], 2)]"
    by auto
  have "should_continue (channel_values c6) = ''write_final_draft''"
    by (simp add: should_continue_def i6 dict_get_def)
  with p6 have p6': "pending c6 = [Task ''write_final_draft'' None]" by simp
  from run_final [OF p6' r6 o] i6 have
    "out = Done" "pending c' = []" "iteration (channel_values c') = Some 2"
    "iter_trace c' = iter_trace c6 @ [([''write_final_draft''], 2)]"
    by (simp_all add: dict_get_def)
  then show ?thesis by (simp add: t6 t3 two_rounds_def)
qed

lemma qua_graph_iteration:
  assumes "qua_graph e log s = (log', Inr u)"
  shows "iteration (merge_update s u) = iteration s"
proof -
  from assms have "iteration u = None"
    by (auto simp: qua_graph_eq job_quals_state_def empty_dict_def
             split: option.splits sum.splits)
  then show ?thesis by (simp add: iteration_merge overwrite_def)
qed

lemma resume_outcome:
  assumes p: "pending c = [Task ''human_feedback'' None]"
    and i: "dict_get (iteration (channel_values c)) 0 = 0" and ip: "iteration patch = None"
    and r: "resume fuel graph e c patch = (out, c')" and o: "out = Done \<or> out = Paused"
  shows "(out = Paused \<and> pending c' = [Task ''human_feedback'' None] \<and>
          dict_get (iteration (channel_values c')) 0 = 0 \<and>
          iter_trace c' = iter_trace c @ [([''human_feedback''], 0), ([''extract_qualifications''], 0)]) \<or>
         (out = Done \<and> pending c' = [] \<and> iteration (channel_values c') = Some 2 \<and>
          iter_trace c' = iter_trace c @ [([''human_feedback''], 0)] @ two_rounds)"
proof (cases fuel)
  case 0
  with r o p show ?thesis by (auto simp: resume_def)
next
  case (Suc f)
  let ?s = "merge_update (channel_values c) patch"
  let ?c1 = "\<lparr>channel_values = ?s,
        pending = [Task (should_human_feedback_continue ?s) None],
        calls = calls c,
        trace = trace c @ [([''human_feedback''], ?s)]\<rparr>"
  have ism: "iteration ?s = iteration (channel_values c)"
    by (simp add: iteration_merge ip overwrite_def)
  have r1: "run f graph e False ?c1 = (out, c')"
    using r Suc resume_graph [OF p, of f e patch] by simp
  have t1: "iter_trace ?c1 = iter_trace c @ [([''human_feedback''], 0)]"
    using i by (simp add: iter_trace_def ism)
  show ?thesis
  proof (cases "should_human_feedback_continue ?s = ''draft_resume''")
    case True
    then have p1: "pending ?c1 = [Task ''draft_resume'' None]" by simp
    have i1: "dict_get (iteration (channel_values ?c1)) 0 = 0" using i by (simp add: ism)
    from run_from_draft [OF p1 i1 r1 o] show ?thesis by (simp add: t1)
  next
    case False
    then have ex: "should_human_feedback_continue ?s = ''extract_qualifications''"
      by (simp add: should_human_feedback_continue_def split: if_splits)
    then have p1: "pending ?c1 = [Task ''extract_qualifications'' None]" by simp
    have ne: "pending ?c1 \<noteq> []" by simp
    have ni: "False \<or> \<not> interrupted graph ?c1" using p1 by (simp add: interrupted_single)
    from run_step [OF ne ni r1 o] obtain f2 c2 where
      st: "superstep graph e ?c1 = Inr c2" and r2: "run f2 graph e False c2 = (out, c')"
      by blast
    from st obtain log' u where
      q: "qua_graph e (calls c) ?s = (log', Inr u)"
      and c2: "c2 = \<lparr>channel_values = merge_update ?s u,
              pending = [Task ''human_feedback'' None], calls = log',
              trace = trace ?c1 @ [([''extract_qualifications''], merge_update ?s u)]\<rparr>"
      unfolding superstep_extract [OF p1] by (auto split: prod.splits sum.splits)
    have "run f2 graph e False c2 = (Paused, c2)"
      by (rule run_paused) (simp_all add: c2 interrupted_single)
    with r2 have out: "out = Paused" and c': "c' = c2" by simp_all
    have iu: "iteration (merge_update ?s u) = iteration (channel_values c)"
      using qua_graph_iteration [OF q] ism by simp
    have "iter_trace c2 = iter_trace ?c1 @ [([''extract_qualifications''], 0)]"
      using i by (simp add: c2 iter_trace_def iu)
    then show ?thesis
      using out i by (simp add: c' t1) (simp add: c2 iu)
  qed
qed

lemma resume_all_done:
  assumes "pending c = [Task ''human_feedback'' None]"
    and "dict_get (iteration (channel_values c)) 0 = 0"
    and "\<forall>p\<in>set ps. iteration p = None"
    and "resume_all fuel graph e c ps = (Done, c')"
  shows "\<exists>mid. iter_trace c' = iter_trace c @ mid @ [([''human_feedback''], 0)] @ two_rounds \<and>
           (\<forall>x\<in>set mid. (fst x = [''extract_qualifications''] \<or> fst x = [''human_feedback'']) \<and> snd x = 0) \<and>
           pending c' = [] \<and> iteration (channel_values c') = Some 2"
  using assms
proof (induction ps arbitrary: c)
  case Nil
  then show ?case by simp
next
  case (Cons p ps)
  obtain out c1 where r: "resume fuel graph e c p = (out, c1)" by (cases "resume fuel graph e c p")
  have ip: "iteration p = None" using Cons.prems(3) by simp
  show ?case
  proof (cases "out = Paused")
    case True
    with r Cons.prems(4) have ra: "resume_all fuel graph e c1 ps = (Done, c')" by simp
    from resume_outcome [OF Cons.prems(1) Cons.prems(2) ip r] True have
      p1: "pending c1 = [Task ''human_feedback'' None]"
      and i1: "dict_get (iteration (channel_values c1)) 0 = 0"
      and t1: "iter_trace c1 = iter_trace c @ [([''human_feedback''], 0), ([''extract_qualifications''], 0)]"
      by auto
    from Cons.prems(3) have "\<forall>p\<in>set ps. iteration p = None" by simp
    from Cons.IH [OF p1 i1 this ra] obtain mid where
      m: "iter_trace c' = iter_trace c1 @ mid @ [([''human_feedback''], 0)] @ two_rounds"
      and mp: "\<forall>x\<in>set mid. (fst x = [''extract_qualifications''] \<or> fst x = [''human_feedback'']) \<and> snd x = 0"
      and rest: "pending c' = []" "iteration (channel_values c') = Some 2"
      by blast
    let ?mid = "[([''human_feedback''], 0), ([''extract_qualifications''], 0)] @ mid"
    have "iter_trace c' = iter_trace c @ ?mid @ [([''human_feedback''], 0)] @ two_rounds"
      by (simp add: m t1)
    moreover have "\<forall>x\<in>set ?mid. (fst x = [''extract_qualifications''] \<or> fst x = [''human_feedback'']) \<and> snd x = 0"
      using mp by simp
    ultimately show ?thesis using rest by blast
  next
    case False
    with r Cons.prems(4) have d: "out = Done" and c1: "c1 = c'"
      by (cases out; simp)+
    from resume_outcome [OF Cons.prems(1) Cons.prems(2) ip r] d have
      "iter_trace c1 = iter_trace c @ [] @ [([''human_feedback''], 0)] @ two_rounds"
      "pending c1 = []" "iteration (channel_values c1) = Some 2"
      by auto
    then show ?thesis unfolding c1 by (intro exI [of _ "[]"]) simp
  qed
qed

lemma workflow_done:
  assumes w: "workflow fuel e s patches = (Done, c')"
    and i: "iteration s = None \<or> iteration s = Some 0"
    and ps: "\<forall>p\<in>set patches. iteration p = None"
  shows "\<exists>pre. iter_trace c' = pre @ [([''human_feedback''], 0)] @ two_rounds \<and>
           (\<forall>x\<in>set pre. (fst x = [''extract_qualifications''] \<or> fst x = [''human_feedback'']) \<and> snd x = 0) \<and>
           pending c' = [] \<and> iteration (channel_values c') = Some 2"
proof -
  obtain out c where inv: "invoke fuel graph e s = (out, c)" by (cases "invoke fuel graph e s")
  have "out = Paused"
  proof (rule ccontr)
    assume "out \<noteq> Paused"
    with w inv have "out = Done" by (cases out) (simp_all add: workflow_def)
    with inv invoke_not_done [of fuel e s] show False by simp
  qed
  with w inv have ra: "resume_all fuel graph e c patches = (Done, c')"
    by (simp add: workflow_def)
  from invoke_paused_shape inv \<open>out = Paused\<close> obtain q where
    c: "c = \<lparr>channel_values = s\<lparr>qualifications := Some q\<rparr>,
                 pending = [Task ''human_feedback'' None],
                 calls = [extraction_request s],
                 trace = [([''extract_qualifications''], s\<lparr>qualifications := Some q\<rparr>)]\<rparr>"
    by blast
  have pc: "pending c = [Task ''human_feedback'' None]" by (simp add: c)
  have ic: "dict_get (iteration (channel_values c)) 0 = 0"
    using i by (auto simp: c dict_get_def)
  have tc: "iter_trace c = [([''extract_qualifications''], 0)]"
    using i by (auto simp: c iter_trace_def dict_get_def)
  from resume_all_done [OF pc ic ps ra] obtain mid where
    m: "iter_trace c' = iter_trace c @ mid @ [([''human_feedback''], 0)] @ two_rounds"
    and mp: "\<forall>x\<in>set mid. (fst x = [''extract_qualifications''] \<or> fst x = [''human_feedback'']) \<and> snd x = 0"
    and rest: "pending c' = []" "iteration (channel_values c') = Some 2"
    by blast
  let ?pre = "[([''extract_qualifications''], 0)] @ mid"
  have "iter_trace c' = ?pre @ [([''human_feedback''], 0)] @ two_rounds"
    by (simp add: m tc)
  moreover have "\<forall>x\<in>set ?pre. (fst x = [''extract_qualifications''] \<or> fst x = [''human_feedback'']) \<and> snd x = 0"
    using mp by simp
  ultimately show ?thesis using rest by blast
qed

lemma nodes_run_iter_trace: "nodes_run c = concat (map fst (iter_trace c))"
  by (simp add: nodes_run_def iter_trace_def comp_def case_prod_unfold)

lemma count_gate_rounds:
  "\<forall>x\<in>set pre. (fst x = [''extract_qualifications''] \<or> fst x = [''human_feedback'']) \<and> snd x = (0::int) \<Longrightarrow>
     count_list (concat (map fst pre)) ''write_final_draft'' = 0"
  by (induction pre) auto


text \<open>
  Claim C6. In every complete run of the workflow (an invocation followed by resumes, ending
  with \<open>Done\<close>) that starts as the spec has it, with the counter absent or 0 and patches
  that do not touch it: the rounds before the last visit of the gate run only
  \<^verbatim>\<open>extract_qualifications\<close> and \<^verbatim>\<open>human_feedback\<close>; then come exactly two rounds of
  draft, editors and revise, the counter reading 0, 0, 1, 1, 1, 2 after them; and
  \<^verbatim>\<open>write_final_draft\<close> runs next, with the counter at 2 for the first time. It runs
  exactly once and is the last node of the run: its only edge leads to the terminal
  marker, unconditionally, so no revision follows.
\<close>

theorem write_final_draft_runs_exactly_once:
  assumes "workflow fuel e s patches = (Done, c')"
    and "iteration s = None \<or> iteration s = Some 0"
    and "\<forall>p\<in>set patches. iteration p = None"
  shows "(\<exists>pre. iter_trace c' = pre @
            [([''human_feedback''], 0),
             ([''draft_resume''], 0), ([''editor_api'', ''editor_critique''], 0), ([''revise_resume''], 1),
             ([''draft_resume''], 1), ([''editor_api'', ''editor_critique''], 1), ([''revise_resume''], 2),
             ([''write_final_draft''], 2)] \<and>
            (\<forall>x\<in>set pre. (fst x = [''extract_qualifications''] \<or> fst x = [''human_feedback''])
                \<and> snd x = 0)) \<and>
         count_list (nodes_run c') ''write_final_draft'' = 1 \<and>
         last (nodes_run c') = ''write_final_draft'' \<and>
         pending c' = [] \<and>
         iteration (channel_values c') = Some 2 \<and>
         (\<forall>st. successors graph st ''write_final_draft'' = Inr [Task END None]) \<and>
         next_tasks [Task END None] = []"
proof -
  from workflow_done [OF assms] obtain pre where
    t: "iter_trace c' = pre @ [([''human_feedback''], 0)] @ two_rounds"
    and pre: "\<forall>x\<in>set pre. (fst x = [''extract_qualifications''] \<or> fst x = [''human_feedback''])
                \<and> snd x = 0"
    and rest: "pending c' = []" "iteration (channel_values c') = Some 2"
    by blast
  have n: "nodes_run c' = concat (map fst pre) @
      [''human_feedback'', ''draft_resume'', ''editor_api'', ''editor_critique'', ''revise_resume'',
       ''draft_resume'', ''editor_api'', ''editor_critique'', ''revise_resume'', ''write_final_draft'']"
    by (simp add: nodes_run_iter_trace t two_rounds_def)
  have c: "count_list (nodes_run c') ''write_final_draft'' = 1"
    unfolding n using count_gate_rounds [OF pre] by simp
  have l: "last (nodes_run c') = ''write_final_draft''"
    unfolding n by simp
  have e: "\<exists>pre. iter_trace c' = pre @
            [([''human_feedback''], 0),
             ([''draft_resume''], 0), ([''editor_api'', ''editor_critique''], 0), ([''revise_resume''], 1),
             ([''draft_resume''], 1), ([''editor_api'', ''editor_critique''], 1), ([''revise_resume''], 2),
             ([''write_final_draft''], 2)] \<and>
            (\<forall>x\<in>set pre. (fst x = [''extract_qualifications''] \<or> fst x = [''human_feedback''])
                \<and> snd x = 0)"
    using t pre by (intro exI [of _ pre]) (simp add: two_rounds_def)
  have s: "\<forall>st. successors graph st ''write_final_draft'' = Inr [Task END None]"
    by (simp add: successors_graph)
  have nt: "next_tasks [Task END None] = []"
    by (simp add: next_tasks_single)
  from e c l rest s nt show ?thesis by blast
qed

theorem write_final_draft_runs_exactly_once_witness:
  "fst (workflow 10 stub_env example_input [need_aws_patch, ok_patch]) = Done \<and>
   iteration example_input = None \<and>
   iteration need_aws_patch = None \<and> iteration ok_patch = None \<and>
   count_list (nodes_run (snd (workflow 10 stub_env example_input [need_aws_patch, ok_patch])))
      ''write_final_draft'' = 1 \<and>
   last (nodes_run (snd (workflow 10 stub_env example_input [need_aws_patch, ok_patch])))
      = ''write_final_draft'' \<and>
   iteration (channel_values (snd (workflow 10 stub_env example_input [need_aws_patch, ok_patch])))
      = Some 2"
proof -
  have d: "fst (workflow 10 stub_env example_input [need_aws_patch, ok_patch]) = Done"
    by code_simp
  then have w: "workflow 10 stub_env example_input [need_aws_patch, ok_patch]
      = (Done, snd (workflow 10 stub_env example_input [need_aws_patch, ok_patch]))"
    by (simp add: prod_eq_iff)
  have i: "iteration example_input = None \<or> iteration example_input = Some 0"
    by (simp add: example_input_def empty_dict_def)
  have ps: "\<forall>p\<in>set [need_aws_patch, ok_patch]. iteration p = None"
    by (simp add: need_aws_patch_def ok_patch_def empty_dict_def)
  from write_final_draft_runs_exactly_once [OF w i ps] d ps show ?thesis
    by (simp add: example_input_def empty_dict_def)
qed

section \<open>The feedback accumulator across rounds\<close>

lemma draft_resume_keeps_feedback:
  assumes "draft_resume e log s = (log', Inr u)"
  shows "editor_feedback (merge_update s u) = Some (dict_get (editor_feedback s) [])"
proof -
  from draft_resume_update [OF assms] obtain d where
    "u = empty_dict\<lparr>resume_draft := Some d, editor_feedback := Some []\<rparr>" by blast
  then show ?thesis
    by (simp add: merge_update_def operator_add_def)
qed

text \<open>
  Claim C1 does not hold of the code. \<^verbatim>\<open>draft_resume\<close> returns
  \<^verbatim>\<open>"editor_feedback": []\<close> "to clear feedback after applying", but the field is declared
  with the reducer \<^verbatim>\<open>operator.add\<close>, so the merge appends the empty list and keeps every
  entry (\<open>draft_resume_keeps_feedback\<close>). In the run of the example input resumed with
  \<^verbatim>\<open>{"human_feedback": "ok"}\<close> the accumulator holds 2 entries after the second
  \<^verbatim>\<open>draft_resume\<close>, not 0, and 4 entries after the second join, not 2.
\<close>

theorem editor_feedback_not_cleared:
  "feedback_trace (snd (workflow 10 stub_env example_input [ok_patch])) =
     [([''extract_qualifications''], None), ([''human_feedback''], None),
      ([''draft_resume''], Some 0), ([''editor_api'', ''editor_critique''], Some 2),
      ([''revise_resume''], Some 2),
      ([''draft_resume''], Some 2), ([''editor_api'', ''editor_critique''], Some 4),
      ([''revise_resume''], Some 4), ([''write_final_draft''], Some 4)] \<and>
   fst (workflow 10 stub_env example_input [ok_patch]) = Done"
  by code_simp

section \<open>An absent iteration counter reads as 0\<close>

lemma dict_get_absent_as_zero [simp]: "dict_get (iteration (absent_as_zero s)) 0 = dict_get (iteration s) 0"
  by (simp add: absent_as_zero_def dict_get_def)

lemma absent_as_zero_None: "iteration s = None \<Longrightarrow> absent_as_zero s = s\<lparr>iteration := Some 0\<rparr>"
  by (simp add: absent_as_zero_def dict_get_def)

lemma absent_as_zero_Some: "iteration s = Some k \<Longrightarrow> absent_as_zero s = s"
  by (simp add: absent_as_zero_def dict_get_def)

lemma nodes_absent_as_zero:
  "qua_graph e log (absent_as_zero s) = qua_graph e log s"
  "human_feedback_node e log (absent_as_zero s) = human_feedback_node e log s"
  "draft_resume e log (absent_as_zero s) = draft_resume e log s"
  "editor_api e log (absent_as_zero s) = editor_api e log s"
  "editor_critique e log (absent_as_zero s) = editor_critique e log s"
  "revise_resume e log (absent_as_zero s) = revise_resume e log s"
  "write_final_draft e log (absent_as_zero s) = write_final_draft e log s"
  by (simp_all add: absent_as_zero_def qua_graph_def job_quals_state_def human_feedback_node_def
        draft_resume_def editor_api_def editor_critique_def revise_resume_def
        write_final_draft_def dict_get_def
      cong: option.case_cong)

lemma routers_absent_as_zero:
  "should_continue (absent_as_zero s) = should_continue s"
  "should_human_feedback_continue (absent_as_zero s) = should_human_feedback_continue s"
  by (simp_all add: should_continue_def should_human_feedback_continue_def)
     (simp add: absent_as_zero_def)

lemma graph_node_absent_as_zero:
  "map_of (nodes graph) n = Some f \<Longrightarrow> f e log (absent_as_zero s) = f e log s"
  by (auto simp: graph_def nodes_absent_as_zero split: if_splits)

lemma absent_as_zero_merge:
  "absent_as_zero (merge_update s u) = merge_update (absent_as_zero s) u"
  by (rule state.equality)
     (simp_all add: absent_as_zero_def merge_update_def overwrite_def dict_get_def
        split: option.splits)

lemma absent_as_zero_foldl:
  "foldl merge_update (absent_as_zero s) us = absent_as_zero (foldl merge_update s us)"
  by (induction us arbitrary: s) (simp_all add: absent_as_zero_merge [symmetric])

lemma run_tasks_absent_as_zero:
  "run_tasks graph e (absent_as_zero s) log ts = run_tasks graph e s log ts"
proof (induction ts arbitrary: log)
  case Nil
  then show ?case by simp
next
  case (Cons t ts)
  obtain n inp where t: "t = Task n inp" by (cases t)
  show ?case
  proof (cases "map_of (nodes graph) n")
    case None
    then show ?thesis by (simp add: t)
  next
    case (Some f)
    have "f e log (case inp of None \<Rightarrow> absent_as_zero s | Some payload \<Rightarrow> payload)
        = f e log (case inp of None \<Rightarrow> s | Some payload \<Rightarrow> payload)"
      by (cases inp) (simp_all add: graph_node_absent_as_zero [OF Some])
    with Some Cons show ?thesis
      by (simp add: t split: prod.splits sum.splits)
  qed
qed

lemma successors_absent_as_zero:
  "successors graph (absent_as_zero s) n = successors graph s n"
  by (simp add: successors_def branches_of_def graph_def routers_absent_as_zero)

lemma all_successors_absent_as_zero:
  "all_successors graph (absent_as_zero s) ns = all_successors graph s ns"
  by (induction ns) (simp_all add: successors_absent_as_zero cong: sum.case_cong)


lemma pending_absent_as_zero [simp]: "pending (absent_as_zero_config c) = pending c"
  by (simp add: absent_as_zero_config_def)

lemma calls_absent_as_zero [simp]: "calls (absent_as_zero_config c) = calls c"
  by (simp add: absent_as_zero_config_def)

lemma values_absent_as_zero [simp]:
  "channel_values (absent_as_zero_config c) = absent_as_zero (channel_values c)"
  by (simp add: absent_as_zero_config_def)

lemma trace_absent_as_zero [simp]:
  "trace (absent_as_zero_config c) = map (\<lambda>(ns, s). (ns, absent_as_zero s)) (trace c)"
  by (simp add: absent_as_zero_config_def)

lemma interrupted_absent_as_zero [simp]:
  "interrupted g (absent_as_zero_config c) = interrupted g c"
  by (simp add: interrupted_def)

lemma superstep_absent_as_zero:
  "superstep graph e (absent_as_zero_config c) =
     (case superstep graph e c of Inl err \<Rightarrow> Inl err | Inr c' \<Rightarrow> Inr (absent_as_zero_config c'))"
proof (cases "run_tasks graph e (channel_values c) (calls c) (pending c)")
  case (Inl err)
  then show ?thesis
    by (simp add: superstep_def run_tasks_absent_as_zero)
next
  case (Inr res)
  obtain log' us where res: "res = (log', us)" by (cases res)
  show ?thesis
  proof (cases "all_successors graph (foldl merge_update (channel_values c) us)
            (map task_node (pending c))")
    case (Inl err)
    with Inr res show ?thesis
      by (simp add: superstep_def Let_def run_tasks_absent_as_zero
            absent_as_zero_foldl all_successors_absent_as_zero)
  next
    case succ: (Inr ts)
    with Inr res show ?thesis
      by (simp add: superstep_def Let_def run_tasks_absent_as_zero
            absent_as_zero_foldl all_successors_absent_as_zero absent_as_zero_config_def)
  qed
qed

lemma run_absent_as_zero:
  "run fuel graph e r (absent_as_zero_config c) =
     (case run fuel graph e r c of (out, c') \<Rightarrow> (out, absent_as_zero_config c'))"
proof (induction fuel arbitrary: r c)
  case 0
  then show ?case by simp
next
  case (Suc fuel)
  show ?case
  proof (cases "superstep graph e c")
    case (Inl err)
    then show ?thesis by (simp add: superstep_absent_as_zero)
  next
    case (Inr c1)
    with Suc.IH [of False c1] show ?thesis by (simp add: superstep_absent_as_zero)
  qed
qed

lemma invoke_absent_as_zero:
  "invoke fuel graph e (absent_as_zero s) =
     (case invoke fuel graph e s of (out, c') \<Rightarrow> (out, absent_as_zero_config c'))"
proof -
  let ?ts = "next_tasks (map (\<lambda>m. Task m None) (static_targets graph START))"
  have eq: "\<lparr>channel_values = absent_as_zero s, pending = ?ts, calls = [], trace = []\<rparr>
      = absent_as_zero_config \<lparr>channel_values = s, pending = ?ts, calls = [], trace = []\<rparr>"
    by (simp add: absent_as_zero_config_def)
  show ?thesis
    unfolding invoke_def eq by (rule run_absent_as_zero)
qed

lemma resume_absent_as_zero:
  "resume fuel graph e (absent_as_zero_config c) patch =
     (case resume fuel graph e c patch of (out, c') \<Rightarrow> (out, absent_as_zero_config c'))"
proof -
  have "(absent_as_zero_config c)
          \<lparr>channel_values := merge_update (channel_values (absent_as_zero_config c)) patch\<rparr>
      = absent_as_zero_config (c\<lparr>channel_values := merge_update (channel_values c) patch\<rparr>)"
    by (simp add: absent_as_zero_config_def absent_as_zero_merge)
  then show ?thesis
    by (simp add: resume_def run_absent_as_zero)
qed

lemma resume_all_absent_as_zero:
  "resume_all fuel graph e (absent_as_zero_config c) ps =
     (case resume_all fuel graph e c ps of (out, c') \<Rightarrow> (out, absent_as_zero_config c'))"
proof (induction ps arbitrary: c)
  case Nil
  then show ?case by simp
next
  case (Cons p ps)
  obtain out c1 where r: "resume fuel graph e c p = (out, c1)" by (cases "resume fuel graph e c p")
  show ?case
    using Cons.IH [of c1] r by (cases out) (simp_all add: resume_absent_as_zero)
qed

lemma workflow_absent_as_zero:
  "workflow fuel e (absent_as_zero s) patches =
     (case workflow fuel e s patches of (out, c') \<Rightarrow> (out, absent_as_zero_config c'))"
proof -
  obtain out c where i: "invoke fuel graph e s = (out, c)" by (cases "invoke fuel graph e s")
  show ?thesis
    using i by (cases out) (simp_all add: workflow_def invoke_absent_as_zero resume_all_absent_as_zero)
qed

text \<open>
  Claim C10. For every state in which \<^verbatim>\<open>iteration\<close> is absent, \<^verbatim>\<open>revise_resume\<close> and
  \<^verbatim>\<open>should_continue\<close> treat it as 0: \<^verbatim>\<open>revise_resume\<close> returns \<^verbatim>\<open>iteration\<close> = 1,
  \<^verbatim>\<open>should_continue\<close> routes to \<^verbatim>\<open>draft_resume\<close>, and both return what they return on
  the same state with \<^verbatim>\<open>iteration\<close> = 0. So an invocation, and a whole run with any
  patches, from a state that omits the counter behaves as the one from the state with the
  counter at 0: same outcome, same pending nodes, same requests to the language model,
  and the same states once an absent counter is read as 0; a run that ends \<open>Done\<close> (with
  patches that do not set the counter) ends in the very same state.
\<close>

theorem absent_iteration_reads_as_zero:
  assumes "iteration s = None"
  shows "revise_resume e log s = (log, Inr (empty_dict\<lparr>iteration := Some 1\<rparr>)) \<and>
         should_continue s = ''draft_resume'' \<and>
         revise_resume e log (s\<lparr>iteration := Some 0\<rparr>) = revise_resume e log s \<and>
         should_continue (s\<lparr>iteration := Some 0\<rparr>) = should_continue s \<and>
         invoke fuel graph e (s\<lparr>iteration := Some 0\<rparr>) =
           (case invoke fuel graph e s of (out, c) \<Rightarrow> (out, absent_as_zero_config c)) \<and>
         workflow fuel e (s\<lparr>iteration := Some 0\<rparr>) patches =
           (case workflow fuel e s patches of (out, c) \<Rightarrow> (out, absent_as_zero_config c)) \<and>
         ((\<forall>p\<in>set patches. iteration p = None) \<and> fst (workflow fuel e s patches) = Done \<longrightarrow>
            channel_values (snd (workflow fuel e (s\<lparr>iteration := Some 0\<rparr>) patches))
              = channel_values (snd (workflow fuel e s patches)))"
proof -
  have z: "absent_as_zero s = s\<lparr>iteration := Some 0\<rparr>"
    by (rule absent_as_zero_None [OF assms])
  have a: "revise_resume e log s = (log, Inr (empty_dict\<lparr>iteration := Some 1\<rparr>))"
    using assms by (simp add: revise_resume_def dict_get_def)
  have b: "should_continue s = ''draft_resume''"
    using assms by (simp add: should_continue_def dict_get_def)
  have c: "revise_resume e log (s\<lparr>iteration := Some 0\<rparr>) = revise_resume e log s"
    using nodes_absent_as_zero(6) [of e log s] by (simp add: z)
  have d: "should_continue (s\<lparr>iteration := Some 0\<rparr>) = should_continue s"
    using routers_absent_as_zero(1) [of s] by (simp add: z)
  have i: "invoke fuel graph e (s\<lparr>iteration := Some 0\<rparr>) =
           (case invoke fuel graph e s of (out, c) \<Rightarrow> (out, absent_as_zero_config c))"
    using invoke_absent_as_zero [of fuel e s] by (simp add: z)
  have w: "workflow fuel e (s\<lparr>iteration := Some 0\<rparr>) patches =
           (case workflow fuel e s patches of (out, c) \<Rightarrow> (out, absent_as_zero_config c))"
    using workflow_absent_as_zero [of fuel e s patches] by (simp add: z)
  have f: "channel_values (snd (workflow fuel e (s\<lparr>iteration := Some 0\<rparr>) patches))
              = channel_values (snd (workflow fuel e s patches))"
    if ps: "\<forall>p\<in>set patches. iteration p = None" and dn: "fst (workflow fuel e s patches) = Done"
  proof -
    obtain c' where r: "workflow fuel e s patches = (Done, c')"
      using dn by (cases "workflow fuel e s patches") simp
    from workflow_done [OF r _ ps] assms have "iteration (channel_values c') = Some 2" by blast
    then have "absent_as_zero (channel_values c') = channel_values c'"
      by (rule absent_as_zero_Some)
    then show ?thesis by (simp add: w r)
  qed
  from a b c d i w f show ?thesis by blast
qed

theorem absent_iteration_reads_as_zero_witness:
  "iteration example_input = None \<and>
   revise_resume stub_env [] example_input = ([], Inr (empty_dict\<lparr>iteration := Some 1\<rparr>)) \<and>
   should_continue example_input = ''draft_resume'' \<and>
   fst (workflow 10 stub_env example_input [ok_patch]) = Done \<and>
   channel_values (snd (workflow 10 stub_env (example_input\<lparr>iteration := Some 0\<rparr>) [ok_patch]))
     = channel_values (snd (workflow 10 stub_env example_input [ok_patch]))"
proof -
  have h: "iteration example_input = None"
    by (simp add: example_input_def empty_dict_def)
  have d: "fst (workflow 10 stub_env example_input [ok_patch]) = Done"
    by code_simp
  have ps: "\<forall>p\<in>set [ok_patch]. iteration p = None"
    by (simp add: ok_patch_def empty_dict_def)
  note T = absent_iteration_reads_as_zero [OF h, of stub_env "[]" 10 "[ok_patch]"]
  have a: "revise_resume stub_env [] example_input = ([], Inr (empty_dict\<lparr>iteration := Some 1\<rparr>))"
    using T by blast
  have b: "should_continue example_input = ''draft_resume''"
    using T by blast
  have f: "channel_values (snd (workflow 10 stub_env (example_input\<lparr>iteration := Some 0\<rparr>) [ok_patch]))
     = channel_values (snd (workflow 10 stub_env example_input [ok_patch]))"
    using T ps d by blast
  from h a b d f show ?thesis by blast
qed

end
